theory Spec2Isabelle
  imports Main
begin

section \<open>Data model\<close>

text \<open>
  Mongo ObjectIds are opaque identifiers; the controllers only compare the ids of
  stored documents with each other and with the id of the authenticated user
  (\<^verbatim>\<open>x.toString() !== req.user.id\<close>), so they are natural numbers here. The one
  place where a string of the request is compared before it is cast, the mentions of a
  comment, keeps the strings. Documents are records with the fields of the mongoose
  schemas that the controllers read or write. Timestamps and the presentation strings
  of a notification (\<^verbatim>\<open>title\<close>, \<^verbatim>\<open>message\<close>, \<^verbatim>\<open>data.actionUrl\<close>) are not
  modelled.
\<close>

type_synonym user_id = nat
type_synonym thread_id = nat
type_synonym comment_id = nat
type_synonym message_id = nat

text \<open>\<^verbatim>\<open>voteType: { type: String, enum: ['up', 'down'] }\<close>\<close>

datatype vote_dir = Up | Down

record vote =
  user :: user_id
  voteType :: vote_dir

text \<open>The three voting fields that the Thread and the Comment schema share.\<close>

record votable =
  upvotes :: int
  downvotes :: int
  votedBy :: "vote list"

record thread = votable +
  createdBy :: user_id
  title :: string
  commentsCount :: int
  isLocked :: bool

record comment = votable +
  c_id :: comment_id
  threadId :: thread_id
  userId :: user_id
  body :: string
  parentId :: "comment_id option"
  mentions :: "user_id list"

datatype message_type = text_message | file_message | image_message

record message =
  sender :: user_id
  receiver :: user_id
  content :: string
  m_threadId :: "thread_id option"
  messageType :: message_type
  m_read :: bool
  isDeleted :: bool
  deletedBy :: "user_id list"

datatype notification_type =
  thread_reply | comment_reply | thread_upvote | comment_upvote | thread_bookmark
  | new_message | thread_mention | comment_mention | system_notice | newsletter

record notification =
  n_userId :: user_id
  n_type :: notification_type
  n_threadId :: "thread_id option"
  n_commentId :: "comment_id option"
  n_messageId :: "message_id option"
  n_fromUserId :: "user_id option"

record notificationPrefs =
  prefs_newsletter :: bool
  prefs_chat :: bool
  prefs_replies :: bool
  prefs_mentions :: bool

record user_doc =
  username :: string
  notificationPrefs :: notificationPrefs

text \<open>
  What \<^verbatim>\<open>io.to(`user-${receiverId}`).emit('new-message', {message, sender})\<close> sends.
\<close>

record push_event =
  room :: user_id
  e_message :: "message option"
  e_sender :: user_id

text \<open>
  The database and the socket server, as one state. Collections addressed by
  \<^verbatim>\<open>_id\<close> only are maps; the comment collection is also queried by
  \<^verbatim>\<open>parentId\<close> and counted, and the notification collection is only appended to,
  so both are lists. \<open>nextId\<close> is the next fresh ObjectId. \<open>notifAccepts\<close> says
  for which documents \<^verbatim>\<open>Notification.create\<close> resolves: where it is false the
  call rejects, which is how a failing notification step is injected.

  Two conversions of the database driver are parameters of the state, since the
  driver is not part of the repository: \<open>idString\<close> is \<^verbatim>\<open>ObjectId.toString()\<close>, the
  string that \<^verbatim>\<open>req.user.id\<close> holds, and \<open>castObjectId\<close> is the cast that mongoose
  applies to a string of a request where the schema or a query asks for an ObjectId
  (\<open>None\<close> where it throws a \<^verbatim>\<open>CastError\<close>). Only the mentions of a comment reach
  the handlers as uncast strings that are compared as strings; every other id of a
  request is used through its cast alone and is modelled by the id it casts to.
\<close>

record db =
  users :: "user_id \<rightharpoonup> user_doc"
  threads :: "thread_id \<rightharpoonup> thread"
  comments :: "comment list"
  messages :: "message_id \<rightharpoonup> message"
  notifications :: "notification list"
  emitted :: "push_event list"
  nextId :: nat
  notifAccepts :: "notification \<Rightarrow> bool"
  idString :: "nat \<Rightarrow> string"
  castObjectId :: "string \<Rightarrow> nat option"

text \<open>
  The outcome of a request handler: either it called
  \<^verbatim>\<open>res.status(code).json({success, ...})\<close>, or an awaited call rejected and the
  handler's promise rejected with it (no controller has a \<^verbatim>\<open>try\<close>/\<^verbatim>\<open>catch\<close>).
\<close>

datatype payload =
  Failure string
  | ValidationErrors "string list"
  | Info string
  | VoteCounts int int
  | MessageData "message option"
  | CommentData "comment option"

datatype result = Sent nat bool payload | Rejected

section \<open>Model operations\<close>

definition Notification_create :: "db \<Rightarrow> notification \<Rightarrow> db option" where
  "Notification_create d n =
     (if notifAccepts d n then Some (d\<lparr>notifications := notifications d @ [n]\<rparr>) else None)"

definition Comment_findById :: "db \<Rightarrow> comment_id \<Rightarrow> comment option" where
  "Comment_findById d i = find (\<lambda>c. c_id c = i) (comments d)"

text \<open>\<^verbatim>\<open>comment.save()\<close>: the stored document with this \<^verbatim>\<open>_id\<close> is replaced.\<close>

definition Comment_save :: "db \<Rightarrow> comment \<Rightarrow> db" where
  "Comment_save d c = d\<lparr>comments := map (\<lambda>x. if c_id x = c_id c then c else x) (comments d)\<rparr>"

definition Thread_save :: "db \<Rightarrow> thread_id \<Rightarrow> thread \<Rightarrow> db" where
  "Thread_save d i t = d\<lparr>threads := (threads d)(i \<mapsto> t)\<rparr>"

text \<open>\<^verbatim>\<open>['up', 'down'].includes(voteType)\<close>, and the enum value of an accepted string.\<close>

definition parseVoteType :: "string \<Rightarrow> vote_dir option" where
  "parseVoteType s = (if s = ''up'' then Some Up else if s = ''down'' then Some Down else None)"

text \<open>
  \<^verbatim>\<open>existingVote.voteType = voteType\<close>, where \<^verbatim>\<open>existingVote\<close> is the element that
  \<^verbatim>\<open>votedBy.find(vote => vote.user.toString() === req.user.id)\<close> returned: the first
  record of the user is changed in place.
\<close>

fun setVoteType :: "user_id \<Rightarrow> vote_dir \<Rightarrow> vote list \<Rightarrow> vote list" where
  "setVoteType u v [] = []"
| "setVoteType u v (x # xs) =
     (if user x = u then x\<lparr>voteType := v\<rparr> # xs else x # setVoteType u v xs)"

section \<open>Voting\<close>

text \<open>The end of both vote handlers: save the document, answer with the counters.\<close>

definition voteThread_respond :: "db \<Rightarrow> thread_id \<Rightarrow> thread \<Rightarrow> db \<times> result" where
  "voteThread_respond d i t =
     (Thread_save d i t, Sent 200 True (VoteCounts (upvotes t) (downvotes t)))"

definition voteThread :: "db \<Rightarrow> user_id \<Rightarrow> thread_id \<Rightarrow> string \<Rightarrow> db \<times> result" where
  "voteThread d uid i vt =
     (case threads d i of
        None \<Rightarrow> (d, Sent 404 False (Failure ''Thread not found''))
      | Some t \<Rightarrow>
         (case parseVoteType vt of
            None \<Rightarrow> (d, Sent 400 False (Failure ''Invalid vote type''))
          | Some v \<Rightarrow>
             (case find (\<lambda>x. user x = uid) (votedBy t) of
                Some existingVote \<Rightarrow>
                  (if voteType existingVote = v then
                     (let t1 = t\<lparr>votedBy := filter (\<lambda>x. user x \<noteq> uid) (votedBy t)\<rparr>;
                          t2 = (if v = Up then t1\<lparr>upvotes := upvotes t1 - 1\<rparr>
                                else t1\<lparr>downvotes := downvotes t1 - 1\<rparr>)
                      in voteThread_respond d i t2)
                   else
                     (let t1 = t\<lparr>votedBy := setVoteType uid v (votedBy t)\<rparr>;
                          t2 = (if v = Up
                                then t1\<lparr>upvotes := upvotes t1 + 1, downvotes := downvotes t1 - 1\<rparr>
                                else t1\<lparr>upvotes := upvotes t1 - 1, downvotes := downvotes t1 + 1\<rparr>)
                      in voteThread_respond d i t2))
              | None \<Rightarrow>
                  (let t1 = t\<lparr>votedBy := votedBy t @ [\<lparr>user = uid, voteType = v\<rparr>]\<rparr>;
                       t2 = (if v = Up then t1\<lparr>upvotes := upvotes t1 + 1\<rparr>
                             else t1\<lparr>downvotes := downvotes t1 + 1\<rparr>)
                   in if v = Up \<and> createdBy t \<noteq> uid then
                        (case Notification_create d
                                \<lparr>n_userId = createdBy t, n_type = thread_upvote,
                                 n_threadId = Some i, n_commentId = None,
                                 n_messageId = None, n_fromUserId = Some uid\<rparr> of
                           None \<Rightarrow> (d, Rejected)
                         | Some d1 \<Rightarrow> voteThread_respond d1 i t2)
                      else voteThread_respond d i t2))))"

definition voteComment_respond :: "db \<Rightarrow> comment \<Rightarrow> db \<times> result" where
  "voteComment_respond d c =
     (Comment_save d c, Sent 200 True (VoteCounts (upvotes c) (downvotes c)))"

definition voteComment :: "db \<Rightarrow> user_id \<Rightarrow> comment_id \<Rightarrow> string \<Rightarrow> db \<times> result" where
  "voteComment d uid i vt =
     (case Comment_findById d i of
        None \<Rightarrow> (d, Sent 404 False (Failure ''Comment not found''))
      | Some c \<Rightarrow>
         (case parseVoteType vt of
            None \<Rightarrow> (d, Sent 400 False (Failure ''Invalid vote type''))
          | Some v \<Rightarrow>
             (case find (\<lambda>x. user x = uid) (votedBy c) of
                Some existingVote \<Rightarrow>
                  (if voteType existingVote = v then
                     (let c1 = c\<lparr>votedBy := filter (\<lambda>x. user x \<noteq> uid) (votedBy c)\<rparr>;
                          c2 = (if v = Up then c1\<lparr>upvotes := upvotes c1 - 1\<rparr>
                                else c1\<lparr>downvotes := downvotes c1 - 1\<rparr>)
                      in voteComment_respond d c2)
                   else
                     (let c1 = c\<lparr>votedBy := setVoteType uid v (votedBy c)\<rparr>;
                          c2 = (if v = Up
                                then c1\<lparr>upvotes := upvotes c1 + 1, downvotes := downvotes c1 - 1\<rparr>
                                else c1\<lparr>upvotes := upvotes c1 - 1, downvotes := downvotes c1 + 1\<rparr>)
                      in voteComment_respond d c2))
              | None \<Rightarrow>
                  (let c1 = c\<lparr>votedBy := votedBy c @ [\<lparr>user = uid, voteType = v\<rparr>]\<rparr>;
                       c2 = (if v = Up then c1\<lparr>upvotes := upvotes c1 + 1\<rparr>
                             else c1\<lparr>downvotes := downvotes c1 + 1\<rparr>)
                   in if v = Up \<and> userId c \<noteq> uid then
                        (case Notification_create d
                                \<lparr>n_userId = userId c, n_type = comment_upvote,
                                 n_threadId = Some (threadId c), n_commentId = Some (c_id c),
                                 n_messageId = None, n_fromUserId = Some uid\<rparr> of
                           None \<Rightarrow> (d, Rejected)
                         | Some d1 \<Rightarrow> voteComment_respond d1 c2)
                      else voteComment_respond d c2))))"

text \<open>
  The invariant of a votable document: the cached counters are the numbers of vote
  records of each direction, and no user has two records.
\<close>

definition vote_inv :: "'a votable_scheme \<Rightarrow> bool" where
  "vote_inv e \<longleftrightarrow>
     upvotes e = int (length (filter (\<lambda>x. voteType x = Up) (votedBy e))) \<and>
     downvotes e = int (length (filter (\<lambda>x. voteType x = Down) (votedBy e))) \<and>
     distinct (map user (votedBy e))"

section \<open>Comments\<close>

text \<open>
  \<^verbatim>\<open>req.body\<close> of \<^verbatim>\<open>POST /api/comments\<close> as the handler reads it, that is after
  the sanitizers of the validation chain (\<^verbatim>\<open>body('body').isLength({min: 1, max: 1000}).trim()\<close>
  checks the length and then trims, so a body of blanks arrives empty and without an
  error), with the result of the validators (\<^verbatim>\<open>validationResult(req)\<close>) as
  \<open>cr_errors\<close>. \<^verbatim>\<open>parentId\<close> and \<^verbatim>\<open>mentions\<close> may be absent; the mentions are
  only checked to be an array, so they are the strings that the client sent.
\<close>

record comment_request =
  cr_errors :: "string list"
  cr_threadId :: thread_id
  cr_body :: string
  cr_parentId :: "comment_id option"
  cr_mentions :: "string list option"

text \<open>The cast of \<^verbatim>\<open>mentions: [ObjectId]\<close>: every entry must cast.\<close>

fun castMentions :: "db \<Rightarrow> string list \<Rightarrow> user_id list option" where
  "castMentions d [] = Some []"
| "castMentions d (m # ms) =
     (case castObjectId d m of
        None \<Rightarrow> None
      | Some i \<Rightarrow> (case castMentions d ms of None \<Rightarrow> None | Some is \<Rightarrow> Some (i # is)))"

text \<open>
  \<^verbatim>\<open>Comment.create({threadId, userId, body, parentId: parentId || null, mentions: mentions || []})\<close>
  with the schema defaults. The schema validation rejects the document (\<open>None\<close>) when
  the body is empty (\<^verbatim>\<open>required\<close>) or longer than 1000 (\<^verbatim>\<open>maxlength\<close>) or a
  mention does not cast to an ObjectId; otherwise the new document gets the next fresh id.
\<close>

definition Comment_create ::
  "db \<Rightarrow> thread_id \<Rightarrow> user_id \<Rightarrow> string \<Rightarrow> comment_id option \<Rightarrow> string list \<Rightarrow> (db \<times> comment) option" where
  "Comment_create d t u b p ms =
     (if b = [] \<or> length b > 1000 then None
      else
        (case castMentions d ms of
           None \<Rightarrow> None
         | Some is \<Rightarrow>
            (let c = \<lparr>upvotes = 0, downvotes = 0, votedBy = [], c_id = nextId d, threadId = t,
                      userId = u, body = b, parentId = p, mentions = is\<rparr>
             in Some (d\<lparr>comments := comments d @ [c], nextId := nextId d + 1\<rparr>, c))))"

text \<open>\<^verbatim>\<open>Thread.findByIdAndUpdate(id, {$inc: {commentsCount: k}})\<close>; no document, no change.\<close>

definition Thread_inc_commentsCount :: "db \<Rightarrow> thread_id \<Rightarrow> int \<Rightarrow> db" where
  "Thread_inc_commentsCount d i k =
     (case threads d i of
        None \<Rightarrow> d
      | Some t \<Rightarrow> d\<lparr>threads := (threads d)(i \<mapsto> t\<lparr>commentsCount := commentsCount t + k\<rparr>)\<rparr>)"

text \<open>
  The loop \<^verbatim>\<open>for (const mentionedUserId of mentions)\<close>. The test
  \<^verbatim>\<open>mentionedUserId !== req.user.id\<close> compares the string of the request with the
  id string of the author; \<^verbatim>\<open>User.findById(mentionedUserId)\<close> and
  \<^verbatim>\<open>Notification.create({userId: mentionedUserId, ...})\<close> cast it. The flag of the
  result is false when an awaited call rejected (the cast of \<^verbatim>\<open>findById\<close> or
  \<^verbatim>\<open>Notification.create\<close>), which ends the loop and the handler; the notifications
  created before that stay.
\<close>

fun notifyMentions ::
  "db \<Rightarrow> user_id \<Rightarrow> thread_id \<Rightarrow> comment_id \<Rightarrow> string list \<Rightarrow> db \<times> bool" where
  "notifyMentions d uid t c [] = (d, True)"
| "notifyMentions d uid t c (mentionedUserId # ms) =
     (if mentionedUserId \<noteq> idString d uid then
        (case castObjectId d mentionedUserId of
           None \<Rightarrow> (d, False)
         | Some i \<Rightarrow>
            (case users d i of
               Some mentionedUser \<Rightarrow>
                 (case Notification_create d
                         \<lparr>n_userId = i, n_type = comment_mention,
                          n_threadId = Some t, n_commentId = Some c,
                          n_messageId = None, n_fromUserId = Some uid\<rparr> of
                    None \<Rightarrow> (d, False)
                  | Some d1 \<Rightarrow> notifyMentions d1 uid t c ms)
             | None \<Rightarrow> notifyMentions d uid t c ms))
      else notifyMentions d uid t c ms)"

text \<open>
  The block under \<^verbatim>\<open>// Create notifications\<close>: a top-level comment notifies the
  thread owner, a nested one the owner of the parent comment, which is read again
  (\<^verbatim>\<open>parentComment.userId\<close> of a missing document would throw).
\<close>

definition notifyReply ::
  "db \<Rightarrow> user_id \<Rightarrow> thread_id \<Rightarrow> thread \<Rightarrow> comment_id \<Rightarrow> comment_id option \<Rightarrow> db \<times> bool" where
  "notifyReply d uid i t c p =
     (case p of
        None \<Rightarrow>
          (if createdBy t \<noteq> uid then
             (case Notification_create d
                     \<lparr>n_userId = createdBy t, n_type = thread_reply,
                      n_threadId = Some i, n_commentId = Some c,
                      n_messageId = None, n_fromUserId = Some uid\<rparr> of
                None \<Rightarrow> (d, False)
              | Some d1 \<Rightarrow> (d1, True))
           else (d, True))
      | Some pid \<Rightarrow>
          (case Comment_findById d pid of
             None \<Rightarrow> (d, False)
           | Some parentComment \<Rightarrow>
               (if userId parentComment \<noteq> uid then
                  (case Notification_create d
                          \<lparr>n_userId = userId parentComment, n_type = comment_reply,
                           n_threadId = Some i, n_commentId = Some c,
                           n_messageId = None, n_fromUserId = Some uid\<rparr> of
                     None \<Rightarrow> (d, False)
                   | Some d1 \<Rightarrow> (d1, True))
                else (d, True))))"

definition createComment :: "db \<Rightarrow> user_id \<Rightarrow> comment_request \<Rightarrow> db \<times> result" where
  "createComment d uid req =
     (if cr_errors req \<noteq> [] then (d, Sent 400 False (ValidationErrors (cr_errors req)))
      else
        (case threads d (cr_threadId req) of
           None \<Rightarrow> (d, Sent 404 False (Failure ''Thread not found''))
         | Some t \<Rightarrow>
            (if isLocked t then (d, Sent 403 False (Failure ''Thread is locked''))
             else if (case cr_parentId req of
                        None \<Rightarrow> False
                      | Some pid \<Rightarrow> Comment_findById d pid = None)
             then (d, Sent 404 False (Failure ''Parent comment not found''))
             else
               (case Comment_create d (cr_threadId req) uid (cr_body req) (cr_parentId req)
                       (case cr_mentions req of None \<Rightarrow> [] | Some ms \<Rightarrow> ms) of
                  None \<Rightarrow> (d, Rejected)
                | Some (d1, c) \<Rightarrow>
                   (let d2 = Thread_inc_commentsCount d1 (cr_threadId req) 1;
                        (d3, ok3) = notifyReply d2 uid (cr_threadId req) t (c_id c) (cr_parentId req)
                    in if \<not> ok3 then (d3, Rejected)
                       else
                         (let (d4, ok4) =
                                (case cr_mentions req of
                                   None \<Rightarrow> (d3, True)
                                 | Some ms \<Rightarrow>
                                     (if length ms > 0
                                      then notifyMentions d3 uid (cr_threadId req) (c_id c) ms
                                      else (d3, True)))
                          in if \<not> ok4 then (d4, Rejected)
                             else (d4, Sent 201 True
                                         (CommentData (Comment_findById d4 (c_id c))))))))))"

text \<open>
  \<^verbatim>\<open>deleteComment\<close>: the replies are removed with
  \<^verbatim>\<open>Comment.deleteMany({parentId: comment._id})\<close>, then counted with
  \<^verbatim>\<open>Comment.countDocuments({parentId: comment._id})\<close>, then the thread's counter is
  lowered by \<^verbatim>\<open>replyCount + 1\<close>, then the comment itself is removed.
\<close>

definition Comment_deleteMany_parentId :: "db \<Rightarrow> comment_id \<Rightarrow> db" where
  "Comment_deleteMany_parentId d i = d\<lparr>comments := filter (\<lambda>x. parentId x \<noteq> Some i) (comments d)\<rparr>"

definition Comment_countDocuments_parentId :: "db \<Rightarrow> comment_id \<Rightarrow> nat" where
  "Comment_countDocuments_parentId d i = length (filter (\<lambda>x. parentId x = Some i) (comments d))"

definition Comment_deleteOne :: "db \<Rightarrow> comment_id \<Rightarrow> db" where
  "Comment_deleteOne d i = d\<lparr>comments := filter (\<lambda>x. c_id x \<noteq> i) (comments d)\<rparr>"

definition deleteComment :: "db \<Rightarrow> user_id \<Rightarrow> comment_id \<Rightarrow> db \<times> result" where
  "deleteComment d uid i =
     (case Comment_findById d i of
        None \<Rightarrow> (d, Sent 404 False (Failure ''Comment not found''))
      | Some c \<Rightarrow>
         (if userId c \<noteq> uid
          then (d, Sent 403 False (Failure ''Not authorized to delete this comment''))
          else
            (let d1 = Comment_deleteMany_parentId d (c_id c);
                 replyCount = Comment_countDocuments_parentId d1 (c_id c);
                 d2 = Thread_inc_commentsCount d1 (threadId c) (- (int replyCount + 1));
                 d3 = Comment_deleteOne d2 (c_id c)
             in (d3, Sent 200 True (Info ''Comment deleted successfully'')))))"

section \<open>Messages\<close>

text \<open>
  \<^verbatim>\<open>req.body\<close> of \<^verbatim>\<open>POST /api/messages\<close> as the handler reads it: the content
  after \<^verbatim>\<open>body('content').isLength({min: 1, max: 1000}).trim()\<close>, which checks the
  length before it trims, and the result of the validators as \<open>mr_errors\<close>.
\<close>

record message_request =
  mr_errors :: "string list"
  mr_receiverId :: user_id
  mr_content :: string
  mr_threadId :: "thread_id option"
  mr_messageType :: "message_type option"

text \<open>
  \<^verbatim>\<open>Message.create\<close> with the schema defaults. The schema validation rejects the
  document (\<open>None\<close>) when the content is empty (\<^verbatim>\<open>required\<close>) or longer than 1000
  (\<^verbatim>\<open>maxlength\<close>); otherwise the message is stored under the next fresh id, which is
  returned.
\<close>

definition Message_create ::
  "db \<Rightarrow> user_id \<Rightarrow> user_id \<Rightarrow> string \<Rightarrow> thread_id option \<Rightarrow> message_type \<Rightarrow>
   (db \<times> message_id) option" where
  "Message_create d s r c t k =
     (if c = [] \<or> length c > 1000 then None
      else
        (let m = \<lparr>sender = s, receiver = r, content = c, m_threadId = t, messageType = k,
                  m_read = False, isDeleted = False, deletedBy = []\<rparr>
         in Some (d\<lparr>messages := (messages d)(nextId d \<mapsto> m), nextId := nextId d + 1\<rparr>,
                  nextId d)))"

text \<open>
  \<^verbatim>\<open>sendMessage\<close>: validation result, receiver lookup and chat preference first;
  then \<^verbatim>\<open>Message.create\<close>, then \<^verbatim>\<open>Notification.create\<close> for the receiver, then the
  message is read back, emitted to the room of the receiver and returned with status 201.
  Each of the two writes may reject, and the handler rejects with it.
\<close>

definition sendMessage :: "db \<Rightarrow> user_id \<Rightarrow> message_request \<Rightarrow> db \<times> result" where
  "sendMessage d uid req =
     (if mr_errors req \<noteq> [] then (d, Sent 400 False (ValidationErrors (mr_errors req)))
      else
        (case users d (mr_receiverId req) of
           None \<Rightarrow> (d, Sent 404 False (Failure ''Receiver not found''))
         | Some receiverDoc \<Rightarrow>
            (if \<not> prefs_chat (notificationPrefs receiverDoc)
             then (d, Sent 403 False (Failure ''User has disabled messages''))
             else
               (case Message_create d uid (mr_receiverId req) (mr_content req)
                       (mr_threadId req)
                       (case mr_messageType req of None \<Rightarrow> text_message | Some k \<Rightarrow> k) of
                  None \<Rightarrow> (d, Rejected)
                | Some (d1, mid) \<Rightarrow>
                   (case Notification_create d1
                           \<lparr>n_userId = mr_receiverId req, n_type = new_message,
                            n_threadId = None, n_commentId = None,
                            n_messageId = Some mid, n_fromUserId = Some uid\<rparr> of
                      None \<Rightarrow> (d1, Rejected)
                    | Some d2 \<Rightarrow>
                        (let populatedMessage = messages d2 mid;
                             d3 = d2\<lparr>emitted := emitted d2 @
                                    [\<lparr>room = mr_receiverId req, e_message = populatedMessage,
                                      e_sender = uid\<rparr>]\<rparr>
                         in (d3, Sent 201 True (MessageData populatedMessage))))))))"

text \<open>
  \<^verbatim>\<open>deleteMessage\<close>: only the sender or the receiver may ask. The user is pushed on
  \<^verbatim>\<open>deletedBy\<close> unless \<^verbatim>\<open>deletedBy.includes(req.user.id)\<close> (a mongoose array
  compares ids by value), and \<^verbatim>\<open>isDeleted\<close> is set when the array has length 2. The
  document is saved, never removed.
\<close>

definition deleteMessage :: "db \<Rightarrow> user_id \<Rightarrow> message_id \<Rightarrow> db \<times> result" where
  "deleteMessage d uid i =
     (case messages d i of
        None \<Rightarrow> (d, Sent 404 False (Failure ''Message not found''))
      | Some m \<Rightarrow>
         (if sender m \<noteq> uid \<and> receiver m \<noteq> uid
          then (d, Sent 403 False (Failure ''Not authorized to delete this message''))
          else
            (let m1 = (if uid \<notin> set (deletedBy m) then m\<lparr>deletedBy := deletedBy m @ [uid]\<rparr> else m);
                 m2 = (if length (deletedBy m1) = 2 then m1\<lparr>isDeleted := True\<rparr> else m1)
             in (d\<lparr>messages := (messages d)(i \<mapsto> m2)\<rparr>,
                 Sent 200 True (Info ''Message deleted successfully'')))))"

section \<open>Observations used by the properties\<close>

text \<open>
  Notifications are only ever appended, so the ones a request created are those past
  the old length of the collection.
\<close>

definition produced :: "db \<Rightarrow> db \<Rightarrow> notification list" where
  "produced d d' = drop (length (notifications d)) (notifications d')"

definition isReply :: "notification \<Rightarrow> bool" where
  "isReply n \<longleftrightarrow> n_type n = thread_reply \<or> n_type n = comment_reply"

definition isMention :: "notification \<Rightarrow> bool" where
  "isMention n \<longleftrightarrow> n_type n = comment_mention \<or> n_type n = thread_mention"

definition mentionsOf :: "comment_request \<Rightarrow> string list" where
  "mentionsOf req = (case cr_mentions req of None \<Rightarrow> [] | Some ms \<Rightarrow> ms)"

text \<open>A sequence of \<^verbatim>\<open>DELETE /api/messages/:id\<close> requests for one message, by the users \<open>us\<close> in turn.\<close>

fun deleteMessage_calls :: "db \<Rightarrow> message_id \<Rightarrow> user_id list \<Rightarrow> db" where
  "deleteMessage_calls d i [] = d"
| "deleteMessage_calls d i (u # us) = deleteMessage_calls (fst (deleteMessage d u i)) i us"

section \<open>A small forum\<close>

text \<open>
  The conversions of the forum: an id is written as 24 lower-case hexadecimal digits,
  and a string casts to an id when it consists of 24 hexadecimal digits, in either
  letter case.
\<close>

definition hexDigit :: "nat \<Rightarrow> char" where
  "hexDigit n = ''0123456789abcdef'' ! n"

fun hexString :: "nat \<Rightarrow> nat \<Rightarrow> string" where
  "hexString 0 n = []"
| "hexString (Suc k) n = hexString k (n div 16) @ [hexDigit (n mod 16)]"

definition hex24 :: "nat \<Rightarrow> string" where
  "hex24 n = hexString 24 n"

definition hexValue :: "char \<Rightarrow> nat option" where
  "hexValue c =
     (let n = (of_char c :: nat)
      in if 48 \<le> n \<and> n \<le> 57 then Some (n - 48)
         else if 97 \<le> n \<and> n \<le> 102 then Some (n - 87)
         else if 65 \<le> n \<and> n \<le> 70 then Some (n - 55)
         else None)"

fun hexNumber :: "nat \<Rightarrow> string \<Rightarrow> nat option" where
  "hexNumber a [] = Some a"
| "hexNumber a (c # cs) =
     (case hexValue c of None \<Rightarrow> None | Some v \<Rightarrow> hexNumber (16 * a + v) cs)"

definition hexObjectId :: "string \<Rightarrow> nat option" where
  "hexObjectId s = (if length s = 24 then hexNumber 0 s else None)"

text \<open>
  Users 1, 2, 3 and 11 accept chat messages, user 5 has switched them off, there is no
  user 4. Thread 7 belongs to user 1, has an upvote of user 2 and two comments:
  comment 8 by user 2 and its reply 9 by user 3.
\<close>

definition ex_user :: "string \<Rightarrow> bool \<Rightarrow> user_doc" where
  "ex_user s c = \<lparr>username = s,
     notificationPrefs = \<lparr>prefs_newsletter = True, prefs_chat = c, prefs_replies = True,
                          prefs_mentions = True\<rparr>\<rparr>"

definition ex_thread :: thread where
  "ex_thread = \<lparr>upvotes = 1, downvotes = 0, votedBy = [\<lparr>user = 2, voteType = Up\<rparr>],
                createdBy = 1, title = ''Logo wanted'', commentsCount = 2, isLocked = False\<rparr>"

definition ex_comment :: comment where
  "ex_comment = \<lparr>upvotes = 0, downvotes = 0, votedBy = [], c_id = 8, threadId = 7, userId = 2,
                 body = ''I can do it'', parentId = None, mentions = []\<rparr>"

definition ex_reply :: comment where
  "ex_reply = \<lparr>upvotes = 0, downvotes = 0, votedBy = [], c_id = 9, threadId = 7, userId = 3,
               body = ''So can I'', parentId = Some 8, mentions = []\<rparr>"

definition ex_db :: db where
  "ex_db = \<lparr>users = [1 \<mapsto> ex_user ''alice'' True, 2 \<mapsto> ex_user ''bob'' True,
                      3 \<mapsto> ex_user ''carol'' True, 5 \<mapsto> ex_user ''eve'' False,
                      11 \<mapsto> ex_user ''kim'' True],
            threads = [7 \<mapsto> ex_thread],
            comments = [ex_comment, ex_reply],
            messages = Map.empty,
            notifications = [],
            emitted = [],
            nextId = 10,
            notifAccepts = (\<lambda>n. True),
            idString = hex24,
            castObjectId = hexObjectId\<rparr>"

text \<open>The same forum with a notification collection that rejects every write.\<close>

definition ex_db_failing :: db where
  "ex_db_failing = ex_db\<lparr>notifAccepts := (\<lambda>n. False)\<rparr>"

definition ex_message_request :: "user_id \<Rightarrow> message_request" where
  "ex_message_request r = \<lparr>mr_errors = [], mr_receiverId = r, mr_content = ''hi'',
                           mr_threadId = None, mr_messageType = None\<rparr>"

definition ex_comment_request :: "comment_id option \<Rightarrow> string list option \<Rightarrow> comment_request" where
  "ex_comment_request p ms = \<lparr>cr_errors = [], cr_threadId = 7, cr_body = ''nice'',
                              cr_parentId = p, cr_mentions = ms\<rparr>"

text \<open>The forum after user 1 has sent message 10 to user 2.\<close>

definition ex_message :: message where
  "ex_message = \<lparr>sender = 1, receiver = 2, content = ''hi'', m_threadId = None,
                 messageType = text_message, m_read = False, isDeleted = False, deletedBy = []\<rparr>"

definition ex_db_chat :: db where
  "ex_db_chat = ex_db\<lparr>messages := [10 \<mapsto> ex_message], nextId := 11\<rparr>"

section \<open>Definitions for the statements\<close>





text \<open>The document that the mention loop creates for the user with id \<open>m\<close>.\<close>

definition mentionNotification :: "user_id \<Rightarrow> thread_id \<Rightarrow> comment_id \<Rightarrow> user_id \<Rightarrow> notification" where
  "mentionNotification uid t c m =
     \<lparr>n_userId = m, n_type = comment_mention, n_threadId = Some t, n_commentId = Some c,
      n_messageId = None, n_fromUserId = Some uid\<rparr>"

text \<open>
  The entries of a mentions list that lead to a notification: a string other than the
  id string of the author that casts to the id of an existing user; \<open>mentioned\<close> is
  that id.
\<close>

definition notifiable :: "db \<Rightarrow> user_id \<Rightarrow> string \<Rightarrow> bool" where
  "notifiable d uid m \<longleftrightarrow>
     m \<noteq> idString d uid \<and>
     (case castObjectId d m of None \<Rightarrow> False | Some i \<Rightarrow> users d i \<noteq> None)"

definition mentioned :: "db \<Rightarrow> string \<Rightarrow> user_id" where
  "mentioned d m = (case castObjectId d m of None \<Rightarrow> 0 | Some i \<Rightarrow> i)"

text \<open>
  The reply notifications of a comment creation that runs to its end, read off the
  database before the request.
\<close>

definition replyNotifications ::
  "db \<Rightarrow> user_id \<Rightarrow> thread_id \<Rightarrow> thread \<Rightarrow> comment_id \<Rightarrow> comment_id option \<Rightarrow> notification list" where
  "replyNotifications d uid i t c p =
     (case p of
        None \<Rightarrow>
          (if createdBy t \<noteq> uid
           then [\<lparr>n_userId = createdBy t, n_type = thread_reply, n_threadId = Some i,
                  n_commentId = Some c, n_messageId = None, n_fromUserId = Some uid\<rparr>]
           else [])
      | Some pid \<Rightarrow>
          (case Comment_findById d pid of
             None \<Rightarrow> []
           | Some parentComment \<Rightarrow>
               (if userId parentComment \<noteq> uid
                then [\<lparr>n_userId = userId parentComment, n_type = comment_reply,
                       n_threadId = Some i, n_commentId = Some c, n_messageId = None,
                       n_fromUserId = Some uid\<rparr>]
                else [])))"

definition recipients :: "notification list \<Rightarrow> (user_id \<times> notification_type) list" where
  "recipients ns = map (\<lambda>n. (n_userId n, n_type n)) ns"

text \<open>
  The deletion marks of a message: no user twice, only the two parties, and the
  message is inert exactly when there are two marks.
\<close>

definition msg_inv :: "message \<Rightarrow> bool" where
  "msg_inv m \<longleftrightarrow> distinct (deletedBy m) \<and> set (deletedBy m) \<subseteq> {sender m, receiver m} \<and>
     (isDeleted m \<longleftrightarrow> length (deletedBy m) = 2)"

section \<open>Vote records\<close>

text \<open>
  How the three branches of a vote handler change the counts of records per direction,
  and from that the invariant for \<^verbatim>\<open>voteThread\<close>.
\<close>

lemma map_user_setVoteType: "map user (setVoteType u v xs) = map user xs"
  by (induction xs) auto

lemma count_setVoteType:
  "find (\<lambda>x. user x = u) xs = Some e \<Longrightarrow>
   int (length (filter (\<lambda>x. voteType x = w) (setVoteType u v xs))) =
   int (length (filter (\<lambda>x. voteType x = w) xs))
     - (if voteType e = w then 1 else 0) + (if v = w then 1 else 0)"
  by (induction xs) (auto split: if_splits)

lemma filter_user_id:
  "u \<notin> user ` set xs \<Longrightarrow> filter (\<lambda>x. user x \<noteq> u) xs = xs"
  by (induction xs) auto

lemma count_remove_user:
  "distinct (map user xs) \<Longrightarrow> find (\<lambda>x. user x = u) xs = Some e \<Longrightarrow>
   int (length (filter P (filter (\<lambda>x. user x \<noteq> u) xs))) =
   int (length (filter P xs)) - (if P e then 1 else 0)"
proof (induction xs)
  case Nil
  then show ?case by simp
next
  case (Cons x xs)
  show ?case
  proof (cases "user x = u")
    case True
    with Cons.prems have "e = x" and "u \<notin> user ` set xs" by auto
    then show ?thesis using True by (simp add: filter_user_id)
  next
    case False
    with Cons show ?thesis by auto
  qed
qed

lemma find_user_None: "find (\<lambda>x. user x = u) xs = None \<Longrightarrow> u \<notin> user ` set xs"
  by (auto simp: find_None_iff)

lemma vote_inv_retract:
  assumes "vote_inv e" "find (\<lambda>x. user x = u) (votedBy e) = Some ev" "voteType ev = v"
  shows "vote_inv ((if v = Up then (e\<lparr>votedBy := filter (\<lambda>x. user x \<noteq> u) (votedBy e)\<rparr>)\<lparr>upvotes := upvotes e - 1\<rparr>
          else (e\<lparr>votedBy := filter (\<lambda>x. user x \<noteq> u) (votedBy e)\<rparr>)\<lparr>downvotes := downvotes e - 1\<rparr>))"
  using assms count_remove_user[of "votedBy e" u ev "\<lambda>x. voteType x = Up"]
    count_remove_user[of "votedBy e" u ev "\<lambda>x. voteType x = Down"]
  by (cases v) (auto simp: vote_inv_def distinct_map_filter)

lemma vote_inv_flip:
  assumes "vote_inv e" "find (\<lambda>x. user x = u) (votedBy e) = Some ev" "voteType ev \<noteq> v"
  shows "vote_inv ((if v = Up then (e\<lparr>votedBy := setVoteType u v (votedBy e)\<rparr>)\<lparr>upvotes := upvotes e + 1, downvotes := downvotes e - 1\<rparr>
          else (e\<lparr>votedBy := setVoteType u v (votedBy e)\<rparr>)\<lparr>upvotes := upvotes e - 1, downvotes := downvotes e + 1\<rparr>))"
  using assms count_setVoteType[of u "votedBy e" ev Up v]
    count_setVoteType[of u "votedBy e" ev Down v]
  by (cases v; cases "voteType ev") (auto simp: vote_inv_def map_user_setVoteType)

lemma vote_inv_new:
  assumes "vote_inv e" "find (\<lambda>x. user x = u) (votedBy e) = None"
  shows "vote_inv ((if v = Up then (e\<lparr>votedBy := votedBy e @ [\<lparr>user = u, voteType = v\<rparr>]\<rparr>)\<lparr>upvotes := upvotes e + 1\<rparr>
          else (e\<lparr>votedBy := votedBy e @ [\<lparr>user = u, voteType = v\<rparr>]\<rparr>)\<lparr>downvotes := downvotes e + 1\<rparr>))"
  using assms find_user_None[of u "votedBy e"]
  by (cases v) (auto simp: vote_inv_def)

lemma voteThread_inv:
  assumes "threads d i = Some t" "vote_inv t"
  shows "\<exists>t'. threads (fst (voteThread d uid j vt)) i = Some t' \<and> vote_inv t'"
proof (cases "j = i")
  case False
  then show ?thesis using assms
    by (auto simp: voteThread_def voteThread_respond_def Thread_save_def Notification_create_def Let_def
        split: option.splits)
next
  case True
  show ?thesis
  proof (cases "parseVoteType vt")
    case None
    then show ?thesis using assms True by (simp add: voteThread_def)
  next
    case (Some v)
    show ?thesis
    proof (cases "find (\<lambda>x. user x = uid) (votedBy t)")
      case None
      from vote_inv_new[OF assms(2) None, of v]
      show ?thesis using assms True Some None
        by (auto simp: voteThread_def voteThread_respond_def Thread_save_def Notification_create_def Let_def)
    next
      case (Some ev)
      note ev = this
      show ?thesis
      proof (cases "voteType ev = v")
        case True
        from vote_inv_retract[OF assms(2) ev True]
        show ?thesis using assms \<open>j = i\<close> \<open>parseVoteType vt = Some v\<close> ev True
          by (auto simp: voteThread_def voteThread_respond_def Thread_save_def Let_def)
      next
        case False
        from vote_inv_flip[OF assms(2) ev False]
        show ?thesis using assms \<open>j = i\<close> \<open>parseVoteType vt = Some v\<close> ev False
          by (auto simp: voteThread_def voteThread_respond_def Thread_save_def Let_def)
      qed
    qed
  qed
qed

section \<open>Comments as a list of documents\<close>

text \<open>
  Reading a comment back after \<^verbatim>\<open>save\<close>, the invariant for \<^verbatim>\<open>voteComment\<close>, and
  two vote requests of one user in a row.
\<close>

lemma find_snoc:
  "find P (xs @ [x]) = (case find P xs of None \<Rightarrow> (if P x then Some x else None) | Some y \<Rightarrow> Some y)"
  by (induction xs) auto



lemma find_replace:
  "find (\<lambda>x. c_id x = i) (map (\<lambda>x. if c_id x = c_id c then c else x) xs) =
   (if c_id c = i then (case find (\<lambda>x. c_id x = i) xs of None \<Rightarrow> None | Some y \<Rightarrow> Some c)
    else find (\<lambda>x. c_id x = i) xs)"
  by (induction xs) auto

lemma Comment_findById_id: "Comment_findById d i = Some c \<Longrightarrow> c_id c = i"
  by (auto simp: Comment_findById_def dest: find_Some_iff[THEN iffD1])

lemma Comment_findById_save:
  "Comment_findById (Comment_save d c) i =
   (if c_id c = i then (case Comment_findById d i of None \<Rightarrow> None | Some y \<Rightarrow> Some c)
    else Comment_findById d i)"
  by (simp add: Comment_findById_def Comment_save_def find_replace)

lemma Comment_findById_notif [simp]:
  "Comment_findById (d\<lparr>notifications := ns\<rparr>) i = Comment_findById d i"
  by (simp add: Comment_findById_def)

lemma notifications_Comment_save [simp]: "notifications (Comment_save d c) = notifications d"
  by (simp add: Comment_save_def)

lemma voteComment_inv:
  assumes "Comment_findById d i = Some c" "vote_inv c"
  shows "\<exists>c'. Comment_findById (fst (voteComment d uid j vt)) i = Some c' \<and> vote_inv c'"
proof (cases "Comment_findById d j")
  case None
  then show ?thesis using assms by (simp add: voteComment_def)
next
  case (Some cj)
  note cj = this
  then have idj: "c_id cj = j" by (rule Comment_findById_id)
  show ?thesis
  proof (cases "j = i")
    case False
    then show ?thesis using assms cj idj
      by (auto simp: voteComment_def voteComment_respond_def Comment_findById_save
          Notification_create_def Let_def split: option.splits)
  next
    case True
    with cj assms have [simp]: "cj = c" by simp
    have idc: "c_id c = i" using assms(1) by (rule Comment_findById_id)
    show ?thesis
    proof (cases "parseVoteType vt")
      case None
      then show ?thesis using assms True by (simp add: voteComment_def)
    next
      case (Some v)
      show ?thesis
      proof (cases "find (\<lambda>x. user x = uid) (votedBy c)")
        case None
        from vote_inv_new[OF assms(2) None, of v]
        show ?thesis using assms True Some None idc
          by (auto simp: voteComment_def voteComment_respond_def Comment_findById_save
              Notification_create_def Let_def)
      next
        case (Some ev)
        note ev = this
        show ?thesis
        proof (cases "voteType ev = v")
          case True
          from vote_inv_retract[OF assms(2) ev True]
          show ?thesis using assms \<open>j = i\<close> \<open>parseVoteType vt = Some v\<close> ev True idc
            by (auto simp: voteComment_def voteComment_respond_def Comment_findById_save Let_def)
        next
          case False
          from vote_inv_flip[OF assms(2) ev False]
          show ?thesis using assms \<open>j = i\<close> \<open>parseVoteType vt = Some v\<close> ev False idc
            by (auto simp: voteComment_def voteComment_respond_def Comment_findById_save Let_def)
        qed
      qed
    qed
  qed
qed

lemma parse_up [simp]: "parseVoteType ''up'' = Some Up"
  and parse_down [simp]: "parseVoteType ''down'' = Some Down"
  by (simp_all add: parseVoteType_def)





section \<open>Deleting a comment\<close>

lemma two_matches:
  assumes "a \<in> set xs" "b \<in> set xs" "a \<noteq> b" "P a" "P b"
  shows "2 \<le> length (filter P xs)"
proof -
  have "{a, b} \<subseteq> set (filter P xs)" using assms by simp
  then have "card {a, b} \<le> card (set (filter P xs))" by (intro card_mono) simp_all
  also have "\<dots> \<le> length (filter P xs)" by (rule card_length)
  finally show ?thesis using assms(3) by simp
qed

lemma removed_length:
  "length xs - length (filter (\<lambda>x. \<not> P x) xs) = length (filter P xs)"
  using sum_length_filter_compl[of P xs] by simp

lemma Comment_findById_mem: "Comment_findById d i = Some c \<Longrightarrow> c \<in> set (comments d)"
  by (auto simp: Comment_findById_def dest: find_Some_iff[THEN iffD1])

lemma deleteComment_comments:
  assumes "Comment_findById d i = Some c" "userId c = uid"
  shows "comments (fst (deleteComment d uid i)) =
           filter (\<lambda>x. \<not> (parentId x = Some i \<or> c_id x = i)) (comments d)"
  using assms Comment_findById_id[OF assms(1)]
  by (auto simp: deleteComment_def Comment_deleteMany_parentId_def Comment_deleteOne_def
      Thread_inc_commentsCount_def Let_def split: option.splits intro: filter_cong)

lemma count_after_deleteMany:
  "Comment_countDocuments_parentId (Comment_deleteMany_parentId d i) i = 0"
  by (simp add: Comment_countDocuments_parentId_def Comment_deleteMany_parentId_def)

lemma deleteComment_thread:
  assumes "Comment_findById d i = Some c" "userId c = uid"
  shows "threads (fst (deleteComment d uid i)) (threadId c) =
           map_option (\<lambda>t. t\<lparr>commentsCount := commentsCount t - 1\<rparr>) (threads d (threadId c))"
  using assms Comment_findById_id[OF assms(1)]
  by (auto simp: deleteComment_def Comment_countDocuments_parentId_def
      Comment_deleteMany_parentId_def Comment_deleteOne_def
      Thread_inc_commentsCount_def Let_def split: option.splits)

lemma deleteComment_removed:
  assumes "Comment_findById d i = Some c" "userId c = uid"
    "r \<in> set (comments d)" "parentId r = Some i" "c_id r \<noteq> i"
  shows "length (comments d) - length (comments (fst (deleteComment d uid i))) \<ge> 2"
proof -
  have "c \<in> set (comments d)" "c_id c = i"
    using assms(1) by (simp_all add: Comment_findById_mem Comment_findById_id)
  moreover from this assms(5) have "c \<noteq> r" by auto
  ultimately have "2 \<le> length (filter (\<lambda>x. parentId x = Some i \<or> c_id x = i) (comments d))"
    using assms(3,4) by (intro two_matches[of c _ r]) simp_all
  moreover have "length (comments d) - length (comments (fst (deleteComment d uid i))) =
      length (filter (\<lambda>x. parentId x = Some i \<or> c_id x = i) (comments d))"
    unfolding deleteComment_comments[OF assms(1,2)] by (rule removed_length)
  ultimately show ?thesis by simp
qed

section \<open>One user, two requests\<close>







section \<open>Deletion marks\<close>

text \<open>
  A duplicate-free list of marks of the two parties has length 2 exactly when the
  parties differ and both have marked; \<open>msg_inv\<close> is kept by every delete request.
\<close>

lemma two_marks_set:
  assumes "distinct xs" "set xs \<subseteq> {s, r}" "length xs = 2"
  shows "s \<noteq> r \<and> set xs = {s, r}"
proof -
  from assms(1,3) have c: "card (set xs) = 2" by (simp add: distinct_card)
  have "card (set xs) \<le> card {s, r}" using assms(2) by (intro card_mono) simp_all
  with c have sr: "s \<noteq> r" by (cases "s = r") auto
  then have "card {s, r} = 2" by simp
  with c assms(2) have "set xs = {s, r}" by (simp add: card_subset_eq)
  with sr show ?thesis by simp
qed

lemma two_marks:
  assumes "distinct xs" "set xs \<subseteq> {s, r}"
  shows "length xs = 2 \<longleftrightarrow> s \<noteq> r \<and> s \<in> set xs \<and> r \<in> set xs"
proof
  assume "length xs = 2"
  from two_marks_set[OF assms this] show "s \<noteq> r \<and> s \<in> set xs \<and> r \<in> set xs" by simp
next
  assume a: "s \<noteq> r \<and> s \<in> set xs \<and> r \<in> set xs"
  with assms(2) have "set xs = {s, r}" by auto
  then have "card (set xs) = 2" using a by simp
  with assms(1) show "length xs = 2" by (simp add: distinct_card)
qed

lemma deleteMessage_step:
  assumes "messages d i = Some m" "msg_inv m"
  shows "\<exists>m'. messages (fst (deleteMessage d u i)) i = Some m' \<and> msg_inv m' \<and>
           sender m' = sender m \<and> receiver m' = receiver m \<and> content m' = content m \<and>
           set (deletedBy m') = set (deletedBy m) \<union> ({u} \<inter> {sender m, receiver m})"
proof (cases "sender m \<noteq> u \<and> receiver m \<noteq> u")
  case True
  then show ?thesis using assms by (auto simp: deleteMessage_def)
next
  case False
  define m1 where "m1 = (if u \<notin> set (deletedBy m) then m\<lparr>deletedBy := deletedBy m @ [u]\<rparr> else m)"
  define m2 where "m2 = (if length (deletedBy m1) = 2 then m1\<lparr>isDeleted := True\<rparr> else m1)"
  have sr: "sender m1 = sender m" "receiver m1 = receiver m" "content m1 = content m"
    "isDeleted m1 = isDeleted m"
    by (simp_all add: m1_def)
  have d1: "distinct (deletedBy m1)" "set (deletedBy m1) \<subseteq> {sender m, receiver m}"
    "set (deletedBy m1) = set (deletedBy m) \<union> ({u} \<inter> {sender m, receiver m})"
    using assms(2) False by (auto simp: m1_def msg_inv_def)
  have old: "length (deletedBy m1) = 2" if "isDeleted m"
  proof -
    from that assms(2) have l: "length (deletedBy m) = 2" "distinct (deletedBy m)"
      "set (deletedBy m) \<subseteq> {sender m, receiver m}"
      by (simp_all add: msg_inv_def)
    from two_marks_set[OF l(2,3,1)] False have "u \<in> set (deletedBy m)" by auto
    then show ?thesis using l(1) by (simp add: m1_def)
  qed
  have inv2: "msg_inv m2"
    using d1 old sr by (auto simp: m2_def msg_inv_def)
  have res: "messages (fst (deleteMessage d u i)) i = Some m2"
    using assms(1) False by (auto simp: deleteMessage_def m1_def m2_def Let_def)
  have "sender m2 = sender m" "receiver m2 = receiver m" "content m2 = content m"
    "deletedBy m2 = deletedBy m1"
    using sr by (simp_all add: m2_def)
  with inv2 res d1(3) show ?thesis by simp
qed

lemma deleteMessage_calls_inv:
  assumes "messages d i = Some m" "msg_inv m"
  shows "\<exists>m'. messages (deleteMessage_calls d i us) i = Some m' \<and> msg_inv m' \<and>
           sender m' = sender m \<and> receiver m' = receiver m \<and> content m' = content m \<and>
           set (deletedBy m') = set (deletedBy m) \<union> (set us \<inter> {sender m, receiver m})"
  using assms
proof (induction us arbitrary: d m)
  case Nil
  then show ?case by simp
next
  case (Cons u us)
  from deleteMessage_step[OF Cons.prems, of u] obtain m1 where
    m1: "messages (fst (deleteMessage d u i)) i = Some m1" "msg_inv m1"
      "sender m1 = sender m" "receiver m1 = receiver m" "content m1 = content m"
      "set (deletedBy m1) = set (deletedBy m) \<union> ({u} \<inter> {sender m, receiver m})"
    by blast
  from Cons.IH[OF m1(1) m1(2)]
  obtain m' where "messages (deleteMessage_calls (fst (deleteMessage d u i)) i us) i = Some m'"
    "msg_inv m'" "sender m' = sender m1" "receiver m' = receiver m1" "content m' = content m1"
    "set (deletedBy m') = set (deletedBy m1) \<union> (set us \<inter> {sender m1, receiver m1})"
    by auto
  with m1 show ?case by auto
qed

lemma deleteMessage_marks:
  assumes "messages d i = Some m" "deletedBy m = []" "\<not> isDeleted m"
  shows "\<exists>m'. messages (deleteMessage_calls d i us) i = Some m' \<and>
           (isDeleted m' \<longleftrightarrow> sender m \<noteq> receiver m \<and> sender m \<in> set us \<and> receiver m \<in> set us) \<and>
           distinct (deletedBy m') \<and>
           set (deletedBy m') = set us \<inter> {sender m, receiver m} \<and>
           sender m' = sender m \<and> receiver m' = receiver m \<and> content m' = content m"
proof -
  have "msg_inv m" using assms by (simp add: msg_inv_def)
  from deleteMessage_calls_inv[OF assms(1) this, of us] obtain m' where
    m': "messages (deleteMessage_calls d i us) i = Some m'" "msg_inv m'"
      "sender m' = sender m" "receiver m' = receiver m" "content m' = content m"
      "set (deletedBy m') = set us \<inter> {sender m, receiver m}"
    using assms(2) by auto
  from m'(2) have i: "distinct (deletedBy m')" "set (deletedBy m') \<subseteq> {sender m, receiver m}"
    "isDeleted m' \<longleftrightarrow> length (deletedBy m') = 2"
    using m'(3,4) by (simp_all add: msg_inv_def)
  from two_marks[OF i(1,2)] i(3) m'(6)
  have "isDeleted m' \<longleftrightarrow> sender m \<noteq> receiver m \<and> sender m \<in> set us \<and> receiver m \<in> set us"
    by auto
  with m' i(1) show ?thesis by blast
qed

section \<open>Notifications of a new comment\<close>

text \<open>
  Both notification steps only append to the collection: a prefix of the expected
  documents when an awaited call rejects, all of them when the step completes.
\<close>

lemma notifiable_notifications [simp]:
  "notifiable (d\<lparr>notifications := ns\<rparr>) uid m = notifiable d uid m"
  "mentioned (d\<lparr>notifications := ns\<rparr>) m = mentioned d m"
  by (simp_all add: notifiable_def mentioned_def split: option.splits)

lemma notifyMentions_frame:
  "users (fst (notifyMentions d uid t c ms)) = users d \<and>
   comments (fst (notifyMentions d uid t c ms)) = comments d \<and>
   notifAccepts (fst (notifyMentions d uid t c ms)) = notifAccepts d \<and>
   idString (fst (notifyMentions d uid t c ms)) = idString d \<and>
   castObjectId (fst (notifyMentions d uid t c ms)) = castObjectId d"
  by (induction d uid t c ms rule: notifyMentions.induct)
     (auto simp: Notification_create_def split: option.splits if_splits)

lemma notifyMentions_prefix:
  "\<exists>k. notifications (fst (notifyMentions d uid t c ms)) =
        notifications d @ map (\<lambda>m. mentionNotification uid t c (mentioned d m))
          (take k (filter (notifiable d uid) ms))"
proof (induction ms arbitrary: d)
  case Nil
  then show ?case by simp
next
  case (Cons m ms)
  show ?case
  proof (cases "notifiable d uid m")
    case False
    then have "notifyMentions d uid t c (m # ms) = notifyMentions d uid t c ms \<or>
               notifyMentions d uid t c (m # ms) = (d, False)"
      by (auto simp: notifiable_def split: option.splits)
    then show ?thesis
    proof
      assume "notifyMentions d uid t c (m # ms) = notifyMentions d uid t c ms"
      with Cons.IH[of d] False show ?thesis by simp
    next
      assume "notifyMentions d uid t c (m # ms) = (d, False)"
      then have "notifications (fst (notifyMentions d uid t c (m # ms))) =
          notifications d @ map (\<lambda>m. mentionNotification uid t c (mentioned d m))
            (take 0 (filter (notifiable d uid) (m # ms)))"
        by simp
      then show ?thesis by blast
    qed
  next
    case True
    then obtain i mu where i: "m \<noteq> idString d uid" "castObjectId d m = Some i" "users d i = Some mu"
      by (auto simp: notifiable_def split: option.splits)
    then have mi: "mentioned d m = i" by (simp add: mentioned_def)
    show ?thesis
    proof (cases "notifAccepts d (mentionNotification uid t c i)")
      case False
      then have "notifications (fst (notifyMentions d uid t c (m # ms))) =
          notifications d @ map (\<lambda>m. mentionNotification uid t c (mentioned d m))
            (take 0 (filter (notifiable d uid) (m # ms)))"
        using i by (simp add: Notification_create_def mentionNotification_def)
      then show ?thesis by blast
    next
      case acc: True
      define d1 where "d1 = d\<lparr>notifications := notifications d @ [mentionNotification uid t c i]\<rparr>"
      have step: "notifyMentions d uid t c (m # ms) = notifyMentions d1 uid t c ms"
        using i acc by (simp add: Notification_create_def mentionNotification_def d1_def)
      have nd: "notifiable d1 uid = notifiable d uid" "mentioned d1 = mentioned d"
        by (auto simp: d1_def fun_eq_iff)
      from Cons.IH[of d1] obtain k where
        "notifications (fst (notifyMentions d1 uid t c ms)) =
            notifications d1 @ map (\<lambda>m. mentionNotification uid t c (mentioned d m))
              (take k (filter (notifiable d uid) ms))"
        unfolding nd by blast
      then have "notifications (fst (notifyMentions d uid t c (m # ms))) =
          notifications d @ map (\<lambda>m. mentionNotification uid t c (mentioned d m))
            (take (Suc k) (filter (notifiable d uid) (m # ms)))"
        unfolding step using True mi by (simp add: d1_def)
      then show ?thesis by blast
    qed
  qed
qed

lemma notifyMentions_complete:
  "snd (notifyMentions d uid t c ms) \<Longrightarrow>
   notifications (fst (notifyMentions d uid t c ms)) =
     notifications d @ map (\<lambda>m. mentionNotification uid t c (mentioned d m))
       (filter (notifiable d uid) ms)"
proof (induction ms arbitrary: d)
  case Nil
  then show ?case by simp
next
  case (Cons m ms)
  show ?case
  proof (cases "notifiable d uid m")
    case False
    with Cons.prems have "notifyMentions d uid t c (m # ms) = notifyMentions d uid t c ms"
      by (auto simp: notifiable_def split: option.splits)
    with Cons.IH[of d] Cons.prems False show ?thesis by simp
  next
    case True
    then obtain i mu where i: "m \<noteq> idString d uid" "castObjectId d m = Some i" "users d i = Some mu"
      by (auto simp: notifiable_def split: option.splits)
    then have mi: "mentioned d m = i" by (simp add: mentioned_def)
    define d1 where "d1 = d\<lparr>notifications := notifications d @ [mentionNotification uid t c i]\<rparr>"
    from Cons.prems i have acc: "notifAccepts d (mentionNotification uid t c i)"
      by (auto simp: Notification_create_def mentionNotification_def split: if_splits)
    have step: "notifyMentions d uid t c (m # ms) = notifyMentions d1 uid t c ms"
      using i acc by (simp add: Notification_create_def mentionNotification_def d1_def)
    have nd: "notifiable d1 uid = notifiable d uid" "mentioned d1 = mentioned d"
      by (auto simp: d1_def fun_eq_iff)
    from Cons.prems have "snd (notifyMentions d1 uid t c ms)" unfolding step .
    from Cons.IH[OF this] show ?thesis
      unfolding step nd using True mi by (simp add: d1_def)
  qed
qed

lemma notifyMentions_accepting:
  "(\<And>n. notifAccepts d n) \<Longrightarrow> (\<And>m. m \<in> set ms \<Longrightarrow> castObjectId d m \<noteq> None) \<Longrightarrow>
   snd (notifyMentions d uid t c ms)"
proof (induction ms arbitrary: d)
  case Nil
  then show ?case by simp
next
  case (Cons m ms)
  have "snd (notifyMentions d' uid t c ms)"
    if "notifAccepts d' = notifAccepts d" "castObjectId d' = castObjectId d" for d'
    using that Cons.prems by (intro Cons.IH) simp_all
  then show ?case using Cons.prems(1) Cons.prems(2)[of m]
    by (auto simp: Notification_create_def split: option.splits)
qed

lemma castMentions_Some_iff:
  "castMentions d ms \<noteq> None \<longleftrightarrow> (\<forall>m \<in> set ms. castObjectId d m \<noteq> None)"
  by (induction ms) (auto split: option.splits)

lemma Comment_create_Some_iff:
  "Comment_create d t u b p ms \<noteq> None \<longleftrightarrow>
     b \<noteq> [] \<and> length b \<le> 1000 \<and> (\<forall>m \<in> set ms. castObjectId d m \<noteq> None)"
  using castMentions_Some_iff[of d ms]
  by (auto simp: Comment_create_def Let_def split: option.splits)

lemma Comment_create_frame:
  assumes "Comment_create d t u b p ms = Some (d1, c)"
  shows "notifications d1 = notifications d" "users d1 = users d" "threads d1 = threads d"
    "notifAccepts d1 = notifAccepts d" "idString d1 = idString d" "castObjectId d1 = castObjectId d"
    "comments d1 = comments d @ [c]" "c_id c = nextId d"
  using assms by (auto simp: Comment_create_def Let_def split: option.splits if_splits)

lemma Thread_inc_frame:
  "notifications (Thread_inc_commentsCount d i k) = notifications d"
  "users (Thread_inc_commentsCount d i k) = users d"
  "comments (Thread_inc_commentsCount d i k) = comments d"
  "notifAccepts (Thread_inc_commentsCount d i k) = notifAccepts d"
  "idString (Thread_inc_commentsCount d i k) = idString d"
  "castObjectId (Thread_inc_commentsCount d i k) = castObjectId d"
  by (simp_all add: Thread_inc_commentsCount_def split: option.splits)

lemma Comment_findById_snoc:
  "Comment_findById d pid \<noteq> None \<Longrightarrow> comments d2 = comments d @ [c] \<Longrightarrow>
   Comment_findById d2 pid = Comment_findById d pid"
  by (auto simp: Comment_findById_def find_snoc split: option.splits)

lemma notifyReply_frame:
  "users (fst (notifyReply d uid i t c p)) = users d \<and>
   comments (fst (notifyReply d uid i t c p)) = comments d \<and>
   notifAccepts (fst (notifyReply d uid i t c p)) = notifAccepts d \<and>
   idString (fst (notifyReply d uid i t c p)) = idString d \<and>
   castObjectId (fst (notifyReply d uid i t c p)) = castObjectId d"
  by (auto simp: notifyReply_def Notification_create_def split: option.splits)

lemma notifyReply_prefix:
  "\<exists>k. notifications (fst (notifyReply d uid i t c p)) =
        notifications d @ take k (replyNotifications d uid i t c p)"
proof (cases "snd (notifyReply d uid i t c p)")
  case True
  then have "notifications (fst (notifyReply d uid i t c p)) =
        notifications d @ take 1 (replyNotifications d uid i t c p)"
    by (auto simp: notifyReply_def replyNotifications_def Notification_create_def
        split: option.splits if_splits)
  then show ?thesis ..
next
  case False
  then have "notifications (fst (notifyReply d uid i t c p)) =
        notifications d @ take 0 (replyNotifications d uid i t c p)"
    by (auto simp: notifyReply_def replyNotifications_def Notification_create_def
        split: option.splits if_splits)
  then show ?thesis ..
qed

lemma notifyReply_complete:
  "snd (notifyReply d uid i t c p) \<Longrightarrow>
   notifications (fst (notifyReply d uid i t c p)) =
     notifications d @ replyNotifications d uid i t c p"
  by (auto simp: notifyReply_def replyNotifications_def Notification_create_def
      split: option.splits if_splits)

lemma notifyReply_accepting:
  "(\<And>n. notifAccepts d n) \<Longrightarrow> (\<And>pid. p = Some pid \<Longrightarrow> Comment_findById d pid \<noteq> None) \<Longrightarrow>
   snd (notifyReply d uid i t c p)"
  by (auto simp: notifyReply_def Notification_create_def split: option.splits)

lemma replyNotifications_cong:
  "(\<And>pid. p = Some pid \<Longrightarrow> Comment_findById d2 pid = Comment_findById d pid) \<Longrightarrow>
   replyNotifications d2 uid i t c p = replyNotifications d uid i t c p"
  by (auto simp: replyNotifications_def split: option.splits)

lemma createComment_run:
  assumes "cr_errors req = []" "threads d (cr_threadId req) = Some t" "\<not> isLocked t"
    "\<And>pid. cr_parentId req = Some pid \<Longrightarrow> Comment_findById d pid \<noteq> None"
    "Comment_create d (cr_threadId req) uid (cr_body req) (cr_parentId req) (mentionsOf req) = Some (d1, c)"
  shows "createComment d uid req =
      (let r3 = notifyReply (Thread_inc_commentsCount d1 (cr_threadId req) 1) uid (cr_threadId req) t
                  (nextId d) (cr_parentId req);
           r4 = notifyMentions (fst r3) uid (cr_threadId req) (nextId d) (mentionsOf req)
       in if \<not> snd r3 then (fst r3, Rejected)
          else if \<not> snd r4 then (fst r4, Rejected)
          else (fst r4, Sent 201 True (CommentData (Comment_findById (fst r4) (nextId d)))))"
proof -
  have chk: "\<not> (case cr_parentId req of None \<Rightarrow> False | Some pid \<Rightarrow> Comment_findById d pid = None)"
    using assms(4) by (auto split: option.splits)
  have loop: "(case cr_mentions req of
                 None \<Rightarrow> (d3, True)
               | Some ms \<Rightarrow> (if length ms > 0 then notifyMentions d3 uid i c ms else (d3, True)))
              = notifyMentions d3 uid i c (mentionsOf req)" for d3 i c
    by (auto simp: mentionsOf_def split: option.splits)
  have cr: "Comment_create d (cr_threadId req) uid (cr_body req) (cr_parentId req)
              (case cr_mentions req of None \<Rightarrow> [] | Some ms \<Rightarrow> ms) = Some (d1, c)"
    using assms(5) by (simp add: mentionsOf_def)
  have cid: "c_id c = nextId d" using Comment_create_frame(8)[OF assms(5)] .
  show ?thesis
    unfolding createComment_def
    using assms(1-3) chk
    by (simp add: cr loop cid Let_def split: prod.splits)
qed

lemma createComment_early:
  assumes "\<not> (cr_errors req = [] \<and> (\<exists>t. threads d (cr_threadId req) = Some t \<and> \<not> isLocked t) \<and>
             (\<forall>pid. cr_parentId req = Some pid \<longrightarrow> Comment_findById d pid \<noteq> None) \<and>
             Comment_create d (cr_threadId req) uid (cr_body req) (cr_parentId req) (mentionsOf req) \<noteq> None)"
  shows "fst (createComment d uid req) = d \<and> (\<forall>x. snd (createComment d uid req) \<noteq> Sent 201 True x)"
  using assms by (auto simp: createComment_def mentionsOf_def split: option.splits)

lemma isReply_mention [simp]: "\<not> isReply (mentionNotification uid t c m)"
  and isMention_mention [simp]: "isMention (mentionNotification uid t c m)"
  by (simp_all add: isReply_def isMention_def mentionNotification_def)

lemma filter_mentions [simp]:
  "filter isReply (map (\<lambda>m. mentionNotification uid t c (f m)) xs) = []"
  "filter isMention (map (\<lambda>m. mentionNotification uid t c (f m)) xs) =
     map (\<lambda>m. mentionNotification uid t c (f m)) xs"
  by (induction xs) simp_all

lemma filter_replies [simp]:
  "filter isReply (replyNotifications d uid i t c p) = replyNotifications d uid i t c p"
  "filter isMention (replyNotifications d uid i t c p) = []"
  by (auto simp: replyNotifications_def isReply_def isMention_def split: option.splits)

lemma length_replies: "length (replyNotifications d uid i t c p) \<le> 1"
  by (auto simp: replyNotifications_def split: option.splits)

lemma filter_take_id: "filter P xs = xs \<Longrightarrow> filter P (take k xs) = take k xs"
  by (auto simp: filter_id_conv dest: in_set_takeD)

lemma createComment_produced:
  assumes "cr_errors req = []" "threads d (cr_threadId req) = Some t" "\<not> isLocked t"
    "\<And>pid. cr_parentId req = Some pid \<Longrightarrow> Comment_findById d pid \<noteq> None"
    "Comment_create d (cr_threadId req) uid (cr_body req) (cr_parentId req) (mentionsOf req) \<noteq> None"
  shows "\<exists>k j. produced d (fst (createComment d uid req)) =
      take k (replyNotifications d uid (cr_threadId req) t (nextId d) (cr_parentId req)) @
      map (\<lambda>m. mentionNotification uid (cr_threadId req) (nextId d) (mentioned d m))
        (take j (filter (notifiable d uid) (mentionsOf req)))"
    and "snd (createComment d uid req) = Sent 201 True x \<Longrightarrow>
      produced d (fst (createComment d uid req)) =
      replyNotifications d uid (cr_threadId req) t (nextId d) (cr_parentId req) @
      map (\<lambda>m. mentionNotification uid (cr_threadId req) (nextId d) (mentioned d m))
        (filter (notifiable d uid) (mentionsOf req))"
    and "(\<And>n. notifAccepts d n) \<Longrightarrow> \<exists>y. snd (createComment d uid req) = Sent 201 True y"
proof -
  from assms(5) obtain d1 c where cr:
    "Comment_create d (cr_threadId req) uid (cr_body req) (cr_parentId req) (mentionsOf req) = Some (d1, c)"
    by auto
  note f1 = Comment_create_frame[OF cr]
  define d2 where "d2 = Thread_inc_commentsCount d1 (cr_threadId req) 1"
  define r3 where "r3 = notifyReply d2 uid (cr_threadId req) t (nextId d) (cr_parentId req)"
  define r4 where "r4 = notifyMentions (fst r3) uid (cr_threadId req) (nextId d) (mentionsOf req)"
  define R where "R = replyNotifications d uid (cr_threadId req) t (nextId d) (cr_parentId req)"
  define M where "M = filter (notifiable d uid) (mentionsOf req)"
  define D where "D = (\<lambda>m. mentionNotification uid (cr_threadId req) (nextId d) (mentioned d m))"
  have f2: "notifications d2 = notifications d" "users d2 = users d" "notifAccepts d2 = notifAccepts d"
    "idString d2 = idString d" "castObjectId d2 = castObjectId d" "comments d2 = comments d @ [c]"
    by (simp_all add: d2_def Thread_inc_frame f1)
  have run: "createComment d uid req =
      (if \<not> snd r3 then (fst r3, Rejected)
       else if \<not> snd r4 then (fst r4, Rejected)
       else (fst r4, Sent 201 True (CommentData (Comment_findById (fst r4) (nextId d)))))"
    using createComment_run[OF assms(1-4) cr] by (simp add: r3_def r4_def d2_def Let_def)
  have par: "Comment_findById d2 pid = Comment_findById d pid" if "cr_parentId req = Some pid" for pid
    using assms(4)[OF that] f2(6) by (rule Comment_findById_snoc)
  have R': "replyNotifications d2 uid (cr_threadId req) t (nextId d) (cr_parentId req) = R"
    unfolding R_def by (rule replyNotifications_cong) (rule par)
  have u3: "users (fst r3) = users d" "notifAccepts (fst r3) = notifAccepts d"
    "idString (fst r3) = idString d" "castObjectId (fst r3) = castObjectId d"
    by (simp_all add: r3_def notifyReply_frame f2)
  have n3: "notifiable (fst r3) uid = notifiable d uid" "mentioned (fst r3) = mentioned d"
    by (auto simp: notifiable_def mentioned_def u3 fun_eq_iff split: option.splits)
  obtain k where k: "notifications (fst r3) = notifications d @ take k R"
    using notifyReply_prefix[of d2 uid "cr_threadId req" t "nextId d" "cr_parentId req"]
    by (auto simp: r3_def R' f2)
  obtain j where j: "notifications (fst r4) = notifications (fst r3) @ map D (take j M)"
    using notifyMentions_prefix[of "fst r3" uid "cr_threadId req" "nextId d" "mentionsOf req"]
    by (auto simp: r4_def M_def D_def n3)
  show "\<exists>k j. produced d (fst (createComment d uid req)) = take k R @ map D (take j M)"
  proof (cases "snd r3")
    case False
    then have "produced d (fst (createComment d uid req)) = take k R @ map D (take 0 M)"
      by (simp add: run produced_def k)
    then show ?thesis by blast
  next
    case True
    then have "produced d (fst (createComment d uid req)) = take k R @ map D (take j M)"
      by (simp add: run produced_def k j)
    then show ?thesis by blast
  qed
  show "produced d (fst (createComment d uid req)) = R @ map D M"
    if "snd (createComment d uid req) = Sent 201 True x"
  proof -
    from that have ok: "snd r3" "snd r4" by (auto simp: run split: if_splits)
    have "notifications (fst r3) = notifications d @ R"
      using notifyReply_complete[of d2 uid "cr_threadId req" t "nextId d" "cr_parentId req"] ok(1)
      by (simp add: r3_def R' f2)
    moreover have "notifications (fst r4) = notifications (fst r3) @ map D M"
      using notifyMentions_complete[of "fst r3" uid "cr_threadId req" "nextId d" "mentionsOf req"] ok(2)
      by (simp add: r4_def M_def D_def n3)
    ultimately show ?thesis using ok by (simp add: run produced_def)
  qed
  show "\<exists>y. snd (createComment d uid req) = Sent 201 True y" if acc: "\<And>n. notifAccepts d n"
  proof -
    have "snd r3" unfolding r3_def
      by (rule notifyReply_accepting) (simp_all add: f2 acc par assms(4))
    moreover have "snd r4" unfolding r4_def
    proof (rule notifyMentions_accepting)
      show "notifAccepts (fst r3) n" for n by (simp add: u3 acc)
      show "castObjectId (fst r3) m \<noteq> None" if "m \<in> set (mentionsOf req)" for m
        using assms(5)[unfolded Comment_create_Some_iff] that by (simp add: u3)
    qed
    ultimately show ?thesis by (simp add: run)
  qed
qed

lemma handlers_suppress_self:
  "\<forall>n \<in> set (produced d (fst (voteThread d uid i vt))). n_userId n \<noteq> uid"
  "\<forall>n \<in> set (produced d (fst (voteComment d uid i vt))). n_userId n \<noteq> uid"
  by (auto simp: produced_def voteThread_def voteThread_respond_def Thread_save_def
      voteComment_def voteComment_respond_def
      Notification_create_def Let_def split: option.splits if_splits)

lemma createComment_suppresses_self:
  "\<forall>n \<in> set (filter isReply (produced d (fst (createComment d uid req)))). n_userId n \<noteq> uid"
proof (cases "cr_errors req = [] \<and> (\<exists>t. threads d (cr_threadId req) = Some t \<and> \<not> isLocked t) \<and>
             (\<forall>pid. cr_parentId req = Some pid \<longrightarrow> Comment_findById d pid \<noteq> None) \<and>
             Comment_create d (cr_threadId req) uid (cr_body req) (cr_parentId req) (mentionsOf req) \<noteq> None")
  case False
  then have "fst (createComment d uid req) = d" using createComment_early by blast
  then show ?thesis by (simp add: produced_def)
next
  case True
  then obtain t where t: "cr_errors req = []" "threads d (cr_threadId req) = Some t" "\<not> isLocked t"
    and par: "\<And>pid. cr_parentId req = Some pid \<Longrightarrow> Comment_findById d pid \<noteq> None"
    and cr: "Comment_create d (cr_threadId req) uid (cr_body req) (cr_parentId req) (mentionsOf req) \<noteq> None"
    by blast
  from createComment_produced(1)[OF t par cr] obtain k j where
    "produced d (fst (createComment d uid req)) =
      take k (replyNotifications d uid (cr_threadId req) t (nextId d) (cr_parentId req)) @
      map (\<lambda>m. mentionNotification uid (cr_threadId req) (nextId d) (mentioned d m))
        (take j (filter (notifiable d uid) (mentionsOf req)))"
    by blast
  then have "filter isReply (produced d (fst (createComment d uid req))) =
      take k (replyNotifications d uid (cr_threadId req) t (nextId d) (cr_parentId req))"
    by (simp add: filter_take_id)
  moreover have "\<forall>n \<in> set (replyNotifications d uid (cr_threadId req) t (nextId d) (cr_parentId req)).
      n_userId n \<noteq> uid"
    by (auto simp: replyNotifications_def split: option.splits)
  ultimately show ?thesis
    by (auto dest: in_set_takeD)
qed

section \<open>Evaluating the handlers on the small forum\<close>

lemma hex24_values:
  "hex24 1 = ''000000000000000000000001''"
  "hex24 (Suc 0) = ''000000000000000000000001''"
  "hex24 2 = ''000000000000000000000002''"
  "hex24 3 = ''000000000000000000000003''"
  "hex24 4 = ''000000000000000000000004''"
  "hex24 11 = ''00000000000000000000000b''"
  by code_simp+

lemma hexObjectId_values:
  "hexObjectId ''000000000000000000000001'' = Some 1"
  "hexObjectId ''000000000000000000000002'' = Some 2"
  "hexObjectId ''000000000000000000000003'' = Some 3"
  "hexObjectId ''000000000000000000000004'' = Some 4"
  "hexObjectId ''00000000000000000000000b'' = Some 11"
  "hexObjectId ''00000000000000000000000B'' = Some 11"
  "hexObjectId ''bob'' = None"
  by code_simp+

lemmas ex_defs = ex_db_def ex_thread_def ex_comment_def ex_reply_def ex_user_def
  hex24_values hexObjectId_values

lemmas send_defs = sendMessage_def Message_create_def Notification_create_def Let_def
  ex_message_request_def


lemmas comment_defs = createComment_def Comment_create_def Thread_inc_commentsCount_def
  notifyReply_def Comment_findById_def Notification_create_def Let_def mentionsOf_def
  produced_def ex_comment_request_def

section \<open>The claims\<close>

text \<open>
  Claim C1: no notification is created when the actor is the recipient, for votes,
  comment replies, mentions and messages alike. The vote handlers and
  \<^verbatim>\<open>createComment\<close> compare the recipient with \<^verbatim>\<open>req.user.id\<close> before every
  \<^verbatim>\<open>Notification.create\<close> (for the owners, whose ids are compared, lemmas
  \<open>handlers_suppress_self\<close> and \<open>createComment_suppresses_self\<close>);
  \<^verbatim>\<open>sendMessage\<close> has no such comparison.
  User 1 sends a message to user 1: the request succeeds and a \<^verbatim>\<open>new_message\<close>
  notification from user 1 to user 1 is stored.
\<close>

theorem sendMessage_notifies_self:
  "snd (sendMessage ex_db 1 (ex_message_request 1)) = Sent 201 True (MessageData (Some
      \<lparr>sender = 1, receiver = 1, content = ''hi'', m_threadId = None,
       messageType = text_message, m_read = False, isDeleted = False, deletedBy = []\<rparr>))
   \<and> notifications (fst (sendMessage ex_db 1 (ex_message_request 1))) =
      [\<lparr>n_userId = 1, n_type = new_message, n_threadId = None, n_commentId = None,
        n_messageId = Some 10, n_fromUserId = Some 1\<rparr>]"
  by (simp add: send_defs ex_defs)

text \<open>
  Claim C2, as the code has it: a comment creation stores at most one reply
  notification. When the request runs to its \<^verbatim>\<open>201\<close> answer, a top-level comment
  notifies the thread owner and nobody else, a nested comment notifies the owner of the
  parent comment and nobody else (not the thread owner), and in both cases nobody when
  that owner is the author of the comment.
\<close>

theorem createComment_reply_notifications:
  "length (filter isReply (produced d (fst (createComment d uid req)))) \<le> 1 \<and>
   (\<forall>x t. snd (createComment d uid req) = Sent 201 True x \<and>
          threads d (cr_threadId req) = Some t \<and> cr_parentId req = None \<longrightarrow>
      recipients (filter isReply (produced d (fst (createComment d uid req)))) =
        (if createdBy t \<noteq> uid then [(createdBy t, thread_reply)] else [])) \<and>
   (\<forall>x pid p. snd (createComment d uid req) = Sent 201 True x \<and>
          cr_parentId req = Some pid \<and> Comment_findById d pid = Some p \<longrightarrow>
      recipients (filter isReply (produced d (fst (createComment d uid req)))) =
        (if userId p \<noteq> uid then [(userId p, comment_reply)] else []))"
proof (cases "cr_errors req = [] \<and> (\<exists>t. threads d (cr_threadId req) = Some t \<and> \<not> isLocked t) \<and>
             (\<forall>pid. cr_parentId req = Some pid \<longrightarrow> Comment_findById d pid \<noteq> None) \<and>
             Comment_create d (cr_threadId req) uid (cr_body req) (cr_parentId req) (mentionsOf req) \<noteq> None")
  case False
  then have "fst (createComment d uid req) = d" "\<forall>x. snd (createComment d uid req) \<noteq> Sent 201 True x"
    using createComment_early by blast+
  then show ?thesis by (simp add: produced_def)
next
  case True
  then obtain t where t: "cr_errors req = []" "threads d (cr_threadId req) = Some t" "\<not> isLocked t"
    and par: "\<And>pid. cr_parentId req = Some pid \<Longrightarrow> Comment_findById d pid \<noteq> None"
    and cr: "Comment_create d (cr_threadId req) uid (cr_body req) (cr_parentId req) (mentionsOf req) \<noteq> None"
    by blast
  let ?R = "replyNotifications d uid (cr_threadId req) t (nextId d) (cr_parentId req)"
  from createComment_produced(1)[OF t par cr] obtain k j where
    "produced d (fst (createComment d uid req)) =
      take k ?R @ map (\<lambda>m. mentionNotification uid (cr_threadId req) (nextId d) (mentioned d m))
        (take j (filter (notifiable d uid) (mentionsOf req)))"
    by blast
  then have "filter isReply (produced d (fst (createComment d uid req))) = take k ?R"
    by (simp add: filter_take_id)
  then have one: "length (filter isReply (produced d (fst (createComment d uid req)))) \<le> 1"
    using length_replies[of d uid "cr_threadId req" t "nextId d" "cr_parentId req"] by simp
  have all: "filter isReply (produced d (fst (createComment d uid req))) = ?R"
    if "snd (createComment d uid req) = Sent 201 True x" for x
    using createComment_produced(2)[OF t par cr that] by simp
  have top: "recipients ?R = (if createdBy t \<noteq> uid then [(createdBy t, thread_reply)] else [])"
    if "cr_parentId req = None"
    using that by (simp add: replyNotifications_def recipients_def)
  have nested: "recipients ?R = (if userId p \<noteq> uid then [(userId p, comment_reply)] else [])"
    if "cr_parentId req = Some pid" "Comment_findById d pid = Some p" for pid p
    using that by (simp add: replyNotifications_def recipients_def)
  show ?thesis using one all top nested t(2) by auto
qed

text \<open>
  C2 on the forum: user 3 comments on thread 7 of user 1, first at top level, then as
  a reply to comment 8 of user 2.
\<close>

theorem createComment_reply_notifications_witness:
  "snd (createComment ex_db 3 (ex_comment_request None None)) = Sent 201 True (CommentData (Some
      \<lparr>upvotes = 0, downvotes = 0, votedBy = [], c_id = 10, threadId = 7, userId = 3,
       body = ''nice'', parentId = None, mentions = []\<rparr>)) \<and>
   recipients (filter isReply (produced ex_db (fst (createComment ex_db 3 (ex_comment_request None None)))))
     = [(1, thread_reply)] \<and>
   recipients (filter isReply (produced ex_db (fst (createComment ex_db 3 (ex_comment_request (Some 8) None)))))
     = [(2, comment_reply)] \<and>
   length (filter isReply (produced ex_db (fst (createComment ex_db 3 (ex_comment_request (Some 8) (Some [hex24 1, hex24 2])))))) \<le> 1"
  using createComment_reply_notifications[of ex_db 3 "ex_comment_request None None"]
    createComment_reply_notifications[of ex_db 3 "ex_comment_request (Some 8) None"]
    createComment_reply_notifications[of ex_db 3 "ex_comment_request (Some 8) (Some [hex24 1, hex24 2])"]
  by (simp add: comment_defs ex_defs isReply_def recipients_def)

text \<open>
  C2 as stated fails: user 3 replies to comment 8, which belongs to user 2, on the
  thread of user 1. The only notification stored is the \<^verbatim>\<open>comment_reply\<close> for user 2;
  the thread owner gets none.
\<close>

theorem nested_comment_skips_thread_owner:
  "createdBy ex_thread = 1 \<and> userId ex_comment = 2 \<and>
   snd (createComment ex_db 3 (ex_comment_request (Some 8) None)) = Sent 201 True (CommentData (Some
      \<lparr>upvotes = 0, downvotes = 0, votedBy = [], c_id = 10, threadId = 7, userId = 3,
       body = ''nice'', parentId = Some 8, mentions = []\<rparr>)) \<and>
   notifications (fst (createComment ex_db 3 (ex_comment_request (Some 8) None))) =
     [\<lparr>n_userId = 2, n_type = comment_reply, n_threadId = Some 7, n_commentId = Some 10,
       n_messageId = None, n_fromUserId = Some 3\<rparr>]"
  by (simp add: comment_defs ex_defs)




text \<open>
  The comparison with the author is one of strings: user 11 is skipped under the
  spelling that \<^verbatim>\<open>req.user.id\<close> has and notified under the same digits in capitals.
  A mention that is no ObjectId, or a body that the sanitizer left empty, makes
  \<^verbatim>\<open>Comment.create\<close> reject, and nothing is stored.
\<close>

lemma mention_in_capitals_notifies_author:
  "hex24 11 = ''00000000000000000000000b'' \<and>
   notifications (fst (createComment ex_db 11
      (ex_comment_request None (Some [''00000000000000000000000b''])))) =
     [\<lparr>n_userId = 1, n_type = thread_reply, n_threadId = Some 7, n_commentId = Some 10,
       n_messageId = None, n_fromUserId = Some 11\<rparr>] \<and>
   notifications (fst (createComment ex_db 11
      (ex_comment_request None (Some [''00000000000000000000000B''])))) =
     [\<lparr>n_userId = 1, n_type = thread_reply, n_threadId = Some 7, n_commentId = Some 10,
       n_messageId = None, n_fromUserId = Some 11\<rparr>,
      \<lparr>n_userId = 11, n_type = comment_mention, n_threadId = Some 7, n_commentId = Some 10,
       n_messageId = None, n_fromUserId = Some 11\<rparr>]"
  by (simp add: comment_defs ex_defs)

lemma rejected_comment_documents:
  "createComment ex_db 1 (ex_comment_request None (Some [''bob''])) = (ex_db, Rejected)"
  "createComment ex_db 1 ((ex_comment_request None None)\<lparr>cr_body := []\<rparr>) = (ex_db, Rejected)"
  by (simp_all add: comment_defs ex_defs)

text \<open>
  Claim C4, as the code has it: once \<^verbatim>\<open>Message.create\<close> has stored the message
  (the receiver exists and accepts chat messages, the document passed the schema), a
  failing write of the \<^verbatim>\<open>new_message\<close> notification is not swallowed: the handler
  rejects and sends no answer, and nothing is pushed to the receiver's room. The message
  is not rolled back: the database is the one that \<^verbatim>\<open>Message.create\<close> left, with
  the message under its id and no notification added.
\<close>

theorem sendMessage_notification_failure:
  assumes "mr_errors req = []" "users d (mr_receiverId req) = Some r"
    "prefs_chat (notificationPrefs r)"
    "Message_create d uid (mr_receiverId req) (mr_content req) (mr_threadId req)
       (case mr_messageType req of None \<Rightarrow> text_message | Some k \<Rightarrow> k) = Some (d1, mid)"
    "\<not> notifAccepts d \<lparr>n_userId = mr_receiverId req, n_type = new_message,
                            n_threadId = None, n_commentId = None,
                            n_messageId = Some mid, n_fromUserId = Some uid\<rparr>"
  shows "sendMessage d uid req = (d1, Rejected)
       \<and> messages d1 mid =
            Some \<lparr>sender = uid, receiver = mr_receiverId req, content = mr_content req,
                  m_threadId = mr_threadId req,
                  messageType = (case mr_messageType req of None \<Rightarrow> text_message | Some k \<Rightarrow> k),
                  m_read = False, isDeleted = False, deletedBy = []\<rparr>
       \<and> notifications d1 = notifications d
       \<and> emitted d1 = emitted d"
proof -
  from assms(4) have d1: "d1 = d\<lparr>messages := (messages d)(nextId d \<mapsto>
        \<lparr>sender = uid, receiver = mr_receiverId req, content = mr_content req,
         m_threadId = mr_threadId req,
         messageType = (case mr_messageType req of None \<Rightarrow> text_message | Some k \<Rightarrow> k),
         m_read = False, isDeleted = False, deletedBy = []\<rparr>), nextId := nextId d + 1\<rparr>"
    and mid: "mid = nextId d"
    by (auto simp: Message_create_def Let_def split: if_splits)
  have "sendMessage d uid req = (d1, Rejected)"
    using assms(1-3,5) by (simp add: sendMessage_def assms(4) Notification_create_def d1)
  then show ?thesis by (simp add: d1 mid)
qed

text \<open>C4 on the forum whose notification collection rejects every write.\<close>

theorem sendMessage_notification_failure_witness:
  "mr_errors (ex_message_request 2) = [] \<and>
   users ex_db_failing 2 = Some (ex_user ''bob'' True) \<and>
   prefs_chat (notificationPrefs (ex_user ''bob'' True)) \<and>
   Message_create ex_db_failing 1 2 ''hi'' None text_message =
     Some (ex_db_failing\<lparr>messages := [10 \<mapsto> ex_message], nextId := 11\<rparr>, 10) \<and>
   sendMessage ex_db_failing 1 (ex_message_request 2) =
     (ex_db_failing\<lparr>messages := [10 \<mapsto> ex_message], nextId := 11\<rparr>, Rejected) \<and>
   messages (fst (sendMessage ex_db_failing 1 (ex_message_request 2))) 10 = Some ex_message \<and>
   notifications (fst (sendMessage ex_db_failing 1 (ex_message_request 2))) = [] \<and>
   emitted (fst (sendMessage ex_db_failing 1 (ex_message_request 2))) = []"
proof -
  have h: "mr_errors (ex_message_request 2) = []"
    "users ex_db_failing (mr_receiverId (ex_message_request 2)) = Some (ex_user ''bob'' True)"
    "prefs_chat (notificationPrefs (ex_user ''bob'' True))"
    by (simp_all add: ex_defs ex_db_failing_def ex_message_request_def)
  have c: "Message_create ex_db_failing 1 (mr_receiverId (ex_message_request 2))
        (mr_content (ex_message_request 2)) (mr_threadId (ex_message_request 2))
        (case mr_messageType (ex_message_request 2) of None \<Rightarrow> text_message | Some k \<Rightarrow> k) =
      Some (ex_db_failing\<lparr>messages := [10 \<mapsto> ex_message], nextId := 11\<rparr>, 10)"
    by (simp add: Message_create_def Let_def ex_defs ex_db_failing_def ex_message_request_def
        ex_message_def)
  have n: "\<not> notifAccepts ex_db_failing
      \<lparr>n_userId = mr_receiverId (ex_message_request 2), n_type = new_message,
       n_threadId = None, n_commentId = None, n_messageId = Some 10, n_fromUserId = Some 1\<rparr>"
    by (simp add: ex_db_failing_def)
  from sendMessage_notification_failure[OF h c n] h c
  show ?thesis
    by (simp add: ex_message_request_def ex_db_failing_def ex_db_def)
qed

text \<open>
  C4 as stated fails: user 1 sends a message to user 2 while notification writes
  fail. The outcome is the rejection, not the \<^verbatim>\<open>201\<close> answer; the message is stored.
\<close>

theorem failed_notification_rejects_send:
  "snd (sendMessage ex_db_failing 1 (ex_message_request 2)) = Rejected \<and>
   messages (fst (sendMessage ex_db_failing 1 (ex_message_request 2))) 10 = Some ex_message"
  by (simp add: send_defs ex_defs ex_db_failing_def ex_message_def)

text \<open>
  When the message itself does not pass the schema (the sanitizer left the content
  empty), \<^verbatim>\<open>Message.create\<close> rejects and nothing is stored.
\<close>

lemma sendMessage_empty_content:
  "sendMessage ex_db 1 ((ex_message_request 2)\<lparr>mr_content := []\<rparr>) = (ex_db, Rejected)"
  by (simp add: send_defs ex_defs)

text \<open>
  Claim C5: for a thread and for a comment, if the counters equal the numbers of vote
  records of each direction and no user has two records, the same holds after any
  vote request (new vote, retraction, flip, or a request that is refused), whichever
  document the request is for.
\<close>

theorem vote_keeps_invariant:
  "(threads d i = Some t \<and> vote_inv t \<longrightarrow>
      (\<exists>t'. threads (fst (voteThread d uid j vt)) i = Some t' \<and> vote_inv t')) \<and>
   (Comment_findById d k = Some c \<and> vote_inv c \<longrightarrow>
      (\<exists>c'. Comment_findById (fst (voteComment d uid l vt)) k = Some c' \<and> vote_inv c'))"
  using voteThread_inv[of d i t uid j vt] voteComment_inv[of d k c uid l vt] by blast

text \<open>
  C5 on the forum: user 2, who has upvoted thread 7, votes it down (a flip); user 3
  votes comment 8 down (a new vote).
\<close>

theorem vote_keeps_invariant_witness:
  "threads ex_db 7 = Some ex_thread \<and> vote_inv ex_thread \<and>
   (\<exists>t'. threads (fst (voteThread ex_db 2 7 ''down'')) 7 = Some t' \<and> vote_inv t') \<and>
   Comment_findById ex_db 8 = Some ex_comment \<and> vote_inv ex_comment \<and>
   (\<exists>c'. Comment_findById (fst (voteComment ex_db 3 8 ''down'')) 8 = Some c' \<and> vote_inv c')"
proof -
  have a: "threads ex_db 7 = Some ex_thread" "vote_inv ex_thread"
    by (simp_all add: ex_defs vote_inv_def)
  have b: "Comment_findById ex_db 8 = Some ex_comment" "vote_inv ex_comment"
    by (simp_all add: ex_defs vote_inv_def Comment_findById_def)
  show ?thesis
    using a b vote_keeps_invariant[of ex_db 7 ex_thread 2 7 "''down''" 8 ex_comment 8]
      vote_keeps_invariant[of ex_db 7 ex_thread 3 7 "''down''" 8 ex_comment 8]
    by blast
qed





text \<open>
  Claim C8: when the receiver does not exist, or exists and has switched chat
  notifications off, \<^verbatim>\<open>sendMessage\<close> leaves the database as it was (no message, no
  notification), and a request that passed validation is answered with
  \<^verbatim>\<open>404\<close> (receiver not found) in the first case and \<^verbatim>\<open>403\<close> (messages
  disabled) in the second.
\<close>

theorem sendMessage_fails_fast:
  "(users d (mr_receiverId req) = None \<longrightarrow>
      fst (sendMessage d uid req) = d \<and>
      (mr_errors req = [] \<longrightarrow>
         snd (sendMessage d uid req) = Sent 404 False (Failure ''Receiver not found''))) \<and>
   (users d (mr_receiverId req) = Some r \<and> \<not> prefs_chat (notificationPrefs r) \<longrightarrow>
      fst (sendMessage d uid req) = d \<and>
      (mr_errors req = [] \<longrightarrow>
         snd (sendMessage d uid req) = Sent 403 False (Failure ''User has disabled messages'')))"
  by (auto simp: sendMessage_def)

text \<open>C8 on the forum: user 1 writes to user 4, who does not exist, and to user 5, who has chat off.\<close>

theorem sendMessage_fails_fast_witness:
  "users ex_db 4 = None \<and>
   sendMessage ex_db 1 (ex_message_request 4) = (ex_db, Sent 404 False (Failure ''Receiver not found'')) \<and>
   users ex_db 5 = Some (ex_user ''eve'' False) \<and>
   \<not> prefs_chat (notificationPrefs (ex_user ''eve'' False)) \<and>
   sendMessage ex_db 1 (ex_message_request 5) =
     (ex_db, Sent 403 False (Failure ''User has disabled messages''))"
  using sendMessage_fails_fast[of ex_db "ex_message_request 4" 1 "ex_user ''eve'' False"]
    sendMessage_fails_fast[of ex_db "ex_message_request 5" 1 "ex_user ''eve'' False"]
  by (auto simp: ex_defs ex_message_request_def prod_eq_iff)

text \<open>
  Claim C9: a message is inert exactly when both the sender and the receiver have
  marked it deleted. The handler marks a message inert when \<^verbatim>\<open>deletedBy\<close> has length
  2, under the comment \<^verbatim>\<open>// If both users deleted, mark as deleted\<close>. For every
  message the rest of the claim holds (lemma \<open>deleteMessage_marks\<close>: no user is marked
  twice, the record stays in the store, and it is inert exactly when two different
  parties have marked it). User 1 sends message 10 to user 1 and deletes it: the one
  user who is its sender and its receiver has marked it, and it is not inert, nor after
  a second request.
\<close>

theorem self_message_never_inert:
  "messages (fst (deleteMessage (fst (sendMessage ex_db 1 (ex_message_request 1))) 1 10)) 10 =
     Some \<lparr>sender = 1, receiver = 1, content = ''hi'', m_threadId = None,
           messageType = text_message, m_read = False, isDeleted = False, deletedBy = [1]\<rparr> \<and>
   messages (deleteMessage_calls (fst (sendMessage ex_db 1 (ex_message_request 1))) 10 [1, 1]) 10 =
     Some \<lparr>sender = 1, receiver = 1, content = ''hi'', m_threadId = None,
           messageType = text_message, m_read = False, isDeleted = False, deletedBy = [1]\<rparr>"
  by (simp add: send_defs deleteMessage_def ex_defs)

text \<open>
  Between two different users the criterion works: on the forum with message 10 from
  user 1 to user 2, three delete requests of user 1 leave one mark and a live message;
  once user 2 has asked too, it is inert.
\<close>

lemma deleteMessage_two_parties:
  "messages (deleteMessage_calls ex_db_chat 10 [1, 1, 1]) 10 = Some (ex_message\<lparr>deletedBy := [1]\<rparr>) \<and>
   (\<exists>m'. messages (deleteMessage_calls ex_db_chat 10 [1, 1, 2]) 10 = Some m' \<and> isDeleted m' \<and>
         distinct (deletedBy m') \<and> set (deletedBy m') = {1, 2})"
proof -
  have h: "messages ex_db_chat 10 = Some ex_message" "deletedBy ex_message = []"
    "\<not> isDeleted ex_message"
    by (simp_all add: ex_db_chat_def ex_message_def)
  have one: "messages (deleteMessage_calls ex_db_chat 10 [1, 1, 1]) 10 = Some (ex_message\<lparr>deletedBy := [1]\<rparr>)"
    by (simp add: deleteMessage_def Let_def ex_db_chat_def ex_message_def)
  from deleteMessage_marks[OF h, of "[1, 1, 2]"]
  have "\<exists>m'. messages (deleteMessage_calls ex_db_chat 10 [1, 1, 2]) 10 = Some m' \<and> isDeleted m' \<and>
         distinct (deletedBy m') \<and> set (deletedBy m') = {1, 2}"
    by (auto simp: ex_message_def)
  with one show ?thesis by blast
qed

text \<open>
  Claim C10: when the owner deletes a comment, the replies are removed before they
  are counted, so the count is 0 and the thread's \<^verbatim>\<open>commentsCount\<close> goes down by
  exactly 1; if the comment had a reply, at least two comments leave the store, more
  than the counter lost.
\<close>

theorem deleteComment_decrements_by_one:
  assumes "Comment_findById d i = Some c" "userId c = uid"
  shows "Comment_countDocuments_parentId (Comment_deleteMany_parentId d (c_id c)) (c_id c) = 0 \<and>
         snd (deleteComment d uid i) = Sent 200 True (Info ''Comment deleted successfully'') \<and>
         threads (fst (deleteComment d uid i)) (threadId c) =
           map_option (\<lambda>t. t\<lparr>commentsCount := commentsCount t - 1\<rparr>) (threads d (threadId c)) \<and>
         (\<forall>r. r \<in> set (comments d) \<and> parentId r = Some i \<and> c_id r \<noteq> i \<longrightarrow>
            2 \<le> length (comments d) - length (comments (fst (deleteComment d uid i))))"
proof (intro conjI allI impI)
  show "Comment_countDocuments_parentId (Comment_deleteMany_parentId d (c_id c)) (c_id c) = 0"
    by (rule count_after_deleteMany)
  show "snd (deleteComment d uid i) = Sent 200 True (Info ''Comment deleted successfully'')"
    using assms by (simp add: deleteComment_def Let_def)
  show "threads (fst (deleteComment d uid i)) (threadId c) =
           map_option (\<lambda>t. t\<lparr>commentsCount := commentsCount t - 1\<rparr>) (threads d (threadId c))"
    by (rule deleteComment_thread[OF assms])
next
  fix r
  assume "r \<in> set (comments d) \<and> parentId r = Some i \<and> c_id r \<noteq> i"
  then show "2 \<le> length (comments d) - length (comments (fst (deleteComment d uid i)))"
    using deleteComment_removed[OF assms, of r] by blast
qed

text \<open>
  C10 on the forum: user 2 deletes comment 8, which has the reply 9. Both comments are
  gone and the counter of thread 7 falls from 2 to 1.
\<close>

theorem deleteComment_decrements_by_one_witness:
  "Comment_findById ex_db 8 = Some ex_comment \<and> userId ex_comment = 2 \<and>
   ex_reply \<in> set (comments ex_db) \<and> parentId ex_reply = Some 8 \<and> c_id ex_reply \<noteq> 8 \<and>
   commentsCount ex_thread = 2 \<and>
   threads (fst (deleteComment ex_db 2 8)) 7 = Some (ex_thread\<lparr>commentsCount := 1\<rparr>) \<and>
   comments (fst (deleteComment ex_db 2 8)) = [] \<and>
   2 \<le> length (comments ex_db) - length (comments (fst (deleteComment ex_db 2 8)))"
proof -
  have h: "Comment_findById ex_db 8 = Some ex_comment" "userId ex_comment = 2"
    by (simp_all add: ex_defs Comment_findById_def)
  have r: "ex_reply \<in> set (comments ex_db)" "parentId ex_reply = Some 8" "c_id ex_reply \<noteq> 8"
    by (simp_all add: ex_defs)
  have e: "commentsCount ex_thread = 2" "comments (fst (deleteComment ex_db 2 8)) = []"
    by (simp_all add: deleteComment_def Comment_findById_def Comment_deleteMany_parentId_def
        Comment_countDocuments_parentId_def Comment_deleteOne_def Thread_inc_commentsCount_def
        Let_def ex_defs)
  note T = deleteComment_decrements_by_one[OF h]
  have k: "threadId ex_comment = 7" "threads ex_db 7 = Some ex_thread"
    by (simp_all add: ex_defs)
  from T have "threads (fst (deleteComment ex_db 2 8)) (threadId ex_comment) =
      map_option (\<lambda>t. t\<lparr>commentsCount := commentsCount t - 1\<rparr>) (threads ex_db (threadId ex_comment))"
    by blast
  then have "threads (fst (deleteComment ex_db 2 8)) 7 =
      Some (ex_thread\<lparr>commentsCount := commentsCount ex_thread - 1\<rparr>)"
    by (simp add: k)
  then have t: "threads (fst (deleteComment ex_db 2 8)) 7 = Some (ex_thread\<lparr>commentsCount := 1\<rparr>)"
    by (simp add: e(1))
  from T r have "2 \<le> length (comments ex_db) - length (comments (fst (deleteComment ex_db 2 8)))"
    by blast
  with h r e t show ?thesis by blast
qed

end
